theory Spec2Isabelle
  imports Main "HOL-Library.Word" "HOL-Library.AList"
begin

section \<open>JavaScript values\<close>

text \<open>
  A JavaScript string is a sequence of 16-bit code units. \<open>ustr\<close> embeds the ASCII
  literals of the source.
\<close>

type_synonym jschar = "16 word"
type_synonym jsstring = "jschar list"

definition ustr :: "string \<Rightarrow> jsstring" where
  "ustr s = map of_char s"

text \<open>
  The values that the program passes around. \<^verbatim>\<open>JSON.parse\<close> produces the first six
  kinds. A number literal is kept as the decimal it denotes, \<open>JNum m e\<close> standing for
  \<open>m * 10 ^ e\<close>; rounding to an IEEE double is not modelled. An object keeps its members in
  the order of the text; a later member with the same key overrides an earlier one.
  \<open>JNonFinite\<close> holds the numbers that no JSON text denotes.
\<close>

datatype nonfinite = NaN | PosInfinity | NegInfinity

datatype json =
    JNull
  | JBool bool
  | JNum int int
  | JStr jsstring
  | JArr "json list"
  | JObj "(jsstring \<times> json) list"
  | JNonFinite nonfinite

datatype jsval = Undefined | Val json

datatype error = SyntaxError | TypeError | SendError | CanvasError

text \<open>
  A statement either completes or throws. A thrown exception does not undo the
  mutations made before it, so both outcomes carry the state.
\<close>

datatype 's outcome = Done 's | Threw error 's

fun state_of :: "'s outcome \<Rightarrow> 's" where
  "state_of (Done s) = s"
| "state_of (Threw e s) = s"

fun threw :: "'s outcome \<Rightarrow> bool" where
  "threw (Done s) = False"
| "threw (Threw e s) = True"

fun and_then :: "'s outcome \<Rightarrow> ('s \<Rightarrow> 's outcome) \<Rightarrow> 's outcome" where
  "and_then (Done s) f = f s"
| "and_then (Threw e s) f = Threw e s"

text \<open>
  Property access \<^verbatim>\<open>v.k\<close> for the property names the program reads (\<^verbatim>\<open>command\<close>,
  \<^verbatim>\<open>data\<close>, \<^verbatim>\<open>from\<close>, \<^verbatim>\<open>to\<close>, \<^verbatim>\<open>pos\<close>, \<^verbatim>\<open>color\<close>, \<^verbatim>\<open>size\<close>), none of which is
  inherited from a built-in prototype: reading a property of \<^verbatim>\<open>undefined\<close> or
  \<^verbatim>\<open>null\<close> throws a TypeError, an object yields its own member or \<^verbatim>\<open>undefined\<close>, every
  other value yields \<^verbatim>\<open>undefined\<close>.
\<close>

fun get_prop :: "jsval \<Rightarrow> jsstring \<Rightarrow> error + jsval" where
  "get_prop Undefined k = Inl TypeError"
| "get_prop (Val JNull) k = Inl TypeError"
| "get_prop (Val (JObj kvs)) k =
     Inr (case map_of (rev kvs) k of None \<Rightarrow> Undefined | Some v \<Rightarrow> Val v)"
| "get_prop (Val v) k = Inr Undefined"

section \<open>JSON.parse\<close>

text \<open>
  \<^verbatim>\<open>JSON.parse\<close>, on the grammar of ECMA-404: white space is space, tab, line feed and
  carriage return; a result is \<open>None\<close> where \<^verbatim>\<open>JSON.parse\<close> throws a SyntaxError.
\<close>

definition ch :: "char \<Rightarrow> jschar" where
  "ch c = of_char c"

definition is_ws :: "jschar \<Rightarrow> bool" where
  "is_ws c = (c = 0x20 \<or> c = 0x09 \<or> c = 0x0A \<or> c = 0x0D)"

definition skip_ws :: "jsstring \<Rightarrow> jsstring" where
  "skip_ws s = dropWhile is_ws s"

definition is_digit :: "jschar \<Rightarrow> bool" where
  "is_digit c = (0x30 \<le> c \<and> c \<le> 0x39)"

definition digit_val :: "jschar \<Rightarrow> nat" where
  "digit_val c = unat c - 0x30"

definition digits_val :: "jsstring \<Rightarrow> nat" where
  "digits_val ds = foldl (\<lambda>n d. 10 * n + digit_val d) 0 ds"

definition hex_val :: "jschar \<Rightarrow> nat option" where
  "hex_val c =
     (if 0x30 \<le> c \<and> c \<le> 0x39 then Some (unat c - 0x30)
      else if 0x41 \<le> c \<and> c \<le> 0x46 then Some (unat c - 0x41 + 10)
      else if 0x61 \<le> c \<and> c \<le> 0x66 then Some (unat c - 0x61 + 10)
      else None)"

definition hex4 :: "jschar \<Rightarrow> jschar \<Rightarrow> jschar \<Rightarrow> jschar \<Rightarrow> jschar option" where
  "hex4 a b c d =
     (case (hex_val a, hex_val b, hex_val c, hex_val d) of
        (Some h1, Some h2, Some h3, Some h4) \<Rightarrow>
          Some (of_nat (((h1 * 16 + h2) * 16 + h3) * 16 + h4))
      | _ \<Rightarrow> None)"

definition escape_char :: "jschar \<Rightarrow> jschar option" where
  "escape_char e =
     (if e = 0x22 then Some 0x22
      else if e = 0x5C then Some 0x5C
      else if e = 0x2F then Some 0x2F
      else if e = ch CHR ''b'' then Some 0x08
      else if e = ch CHR ''f'' then Some 0x0C
      else if e = ch CHR ''n'' then Some 0x0A
      else if e = ch CHR ''r'' then Some 0x0D
      else if e = ch CHR ''t'' then Some 0x09
      else None)"

text \<open>
  The characters of a string after its opening quote, up to the closing quote: escapes
  are decoded, a control character is refused.
\<close>

fun parse_chars :: "jsstring \<Rightarrow> (jsstring \<times> jsstring) option" where
  "parse_chars [] = None"
| "parse_chars (c # cs) =
     (if c = 0x22 then Some ([], cs)
      else if c = 0x5C then
        (case cs of
           [] \<Rightarrow> None
         | e # cs1 \<Rightarrow>
             if e = ch CHR ''u'' then
               (case cs1 of
                  a # b # c # d # cs2 \<Rightarrow>
                    (case hex4 a b c d of
                       None \<Rightarrow> None
                     | Some u \<Rightarrow> map_option (\<lambda>(str, rest). (u # str, rest)) (parse_chars cs2))
                | _ \<Rightarrow> None)
             else
               (case escape_char e of
                  None \<Rightarrow> None
                | Some u \<Rightarrow> map_option (\<lambda>(str, rest). (u # str, rest)) (parse_chars cs1)))
      else if c < 0x20 then None
      else map_option (\<lambda>(str, rest). (c # str, rest)) (parse_chars cs))"

text \<open>
  A number: an optional minus, \<^verbatim>\<open>0\<close> or digits that do not start with \<^verbatim>\<open>0\<close>, an optional
  fraction, an optional exponent.
\<close>

definition parse_digits :: "jsstring \<Rightarrow> (jsstring \<times> jsstring) option" where
  "parse_digits s =
     (if takeWhile is_digit s = [] then None
      else Some (takeWhile is_digit s, dropWhile is_digit s))"

definition parse_int_part :: "jsstring \<Rightarrow> (jsstring \<times> jsstring) option" where
  "parse_int_part s =
     (case s of
        [] \<Rightarrow> None
      | c # cs \<Rightarrow> if c = 0x30 then Some ([c], cs) else parse_digits s)"

definition parse_frac :: "jsstring \<Rightarrow> (jsstring \<times> jsstring) option" where
  "parse_frac s =
     (case s of
        [] \<Rightarrow> Some ([], s)
      | c # cs \<Rightarrow> if c = ch CHR ''.'' then parse_digits cs else Some ([], s))"

definition parse_exp :: "jsstring \<Rightarrow> (int \<times> jsstring) option" where
  "parse_exp s =
     (case s of
        [] \<Rightarrow> Some (0, s)
      | c # cs \<Rightarrow>
          if c = ch CHR ''e'' \<or> c = ch CHR ''E'' then
            (case cs of
               [] \<Rightarrow> None
             | g # cs1 \<Rightarrow>
                 if g = ch CHR ''-'' then
                   map_option (\<lambda>(ds, rest). (- int (digits_val ds), rest)) (parse_digits cs1)
                 else if g = ch CHR ''+'' then
                   map_option (\<lambda>(ds, rest). (int (digits_val ds), rest)) (parse_digits cs1)
                 else map_option (\<lambda>(ds, rest). (int (digits_val ds), rest)) (parse_digits cs))
          else Some (0, s))"

definition parse_number :: "jsstring \<Rightarrow> (json \<times> jsstring) option" where
  "parse_number s =
     (let (neg, s0) = (case s of c # cs \<Rightarrow> if c = ch CHR ''-'' then (True, cs) else (False, s)
                       | [] \<Rightarrow> (False, s))
      in case parse_int_part s0 of
           None \<Rightarrow> None
         | Some (ip, s1) \<Rightarrow>
             (case parse_frac s1 of
                None \<Rightarrow> None
              | Some (fp, s2) \<Rightarrow>
                  (case parse_exp s2 of
                     None \<Rightarrow> None
                   | Some (e, s3) \<Rightarrow>
                       Some (JNum ((if neg then - 1 else 1) * int (digits_val (ip @ fp)))
                                  (e - int (length fp)), s3))))"

definition parse_literal :: "string \<Rightarrow> json \<Rightarrow> jsstring \<Rightarrow> (json \<times> jsstring) option" where
  "parse_literal word v s =
     (if take (length word) s = ustr word then Some (v, drop (length word) s) else None)"

text \<open>
  A value, the elements of an array after its opening bracket, and the members of an
  object after its opening brace. The tests \<open>length r < length s\<close> always hold (a value,
  and a string, take at least one character, see \<open>parse_value_shorter\<close>); they are there
  for the termination proof.
\<close>

function parse_value :: "jsstring \<Rightarrow> (json \<times> jsstring) option"
  and parse_elements :: "jsstring \<Rightarrow> (json list \<times> jsstring) option"
  and parse_members :: "jsstring \<Rightarrow> ((jsstring \<times> json) list \<times> jsstring) option"
where
  "parse_value s =
     (case s of
        [] \<Rightarrow> None
      | c # cs \<Rightarrow>
          if c = ch CHR ''{'' then
            (case skip_ws cs of
               [] \<Rightarrow> None
             | d # ds \<Rightarrow>
                 if d = ch CHR ''}'' then Some (JObj [], ds)
                 else map_option (\<lambda>(kvs, rest). (JObj kvs, rest)) (parse_members (skip_ws cs)))
          else if c = ch CHR ''['' then
            (case skip_ws cs of
               [] \<Rightarrow> None
             | d # ds \<Rightarrow>
                 if d = ch CHR '']'' then Some (JArr [], ds)
                 else map_option (\<lambda>(vs, rest). (JArr vs, rest)) (parse_elements (skip_ws cs)))
          else if c = 0x22 then map_option (\<lambda>(str, rest). (JStr str, rest)) (parse_chars cs)
          else if c = ch CHR ''t'' then parse_literal ''true'' (JBool True) s
          else if c = ch CHR ''f'' then parse_literal ''false'' (JBool False) s
          else if c = ch CHR ''n'' then parse_literal ''null'' JNull s
          else parse_number s)"
| "parse_elements s =
     (case parse_value s of
        None \<Rightarrow> None
      | Some (v, r) \<Rightarrow>
          if length r < length s then
            (case skip_ws r of
               [] \<Rightarrow> None
             | c # cs \<Rightarrow>
                 if c = ch CHR '','' then
                   map_option (\<lambda>(vs, rest). (v # vs, rest)) (parse_elements (skip_ws cs))
                 else if c = ch CHR '']'' then Some ([v], cs)
                 else None)
          else None)"
| "parse_members s =
     (case s of
        [] \<Rightarrow> None
      | q # s0 \<Rightarrow>
          if q = 0x22 then
            (case parse_chars s0 of
               None \<Rightarrow> None
             | Some (k, r0) \<Rightarrow>
                 if length r0 < length s then
                   (case skip_ws r0 of
                      [] \<Rightarrow> None
                    | colon # r1 \<Rightarrow>
                        if colon = ch CHR '':'' then
                          (case parse_value (skip_ws r1) of
                             None \<Rightarrow> None
                           | Some (v, r) \<Rightarrow>
                               if length r < length s then
                                 (case skip_ws r of
                                    [] \<Rightarrow> None
                                  | c # cs \<Rightarrow>
                                      if c = ch CHR '','' then
                                        map_option (\<lambda>(kvs, rest). ((k, v) # kvs, rest))
                                          (parse_members (skip_ws cs))
                                      else if c = ch CHR ''}'' then Some ([(k, v)], cs)
                                      else None)
                               else None)
                        else None)
                 else None)
          else None)"
  by pat_completeness auto
termination
proof (relation "measure (\<lambda>x. case x of Inl s \<Rightarrow> 2 * length s
                                 | Inr (Inl s) \<Rightarrow> 2 * length s + 1
                                 | Inr (Inr s) \<Rightarrow> 2 * length s + 1)", goal_cases)
  have ws: "length (skip_ws r) \<le> length r" for r
    by (simp add: skip_ws_def length_dropWhile_le)
  have tl: "length cs < length r" if "skip_ws r = c # cs" for r c cs
    using ws [of r] that by simp
  {
    case 1
    show ?case by simp
  next
    case (2 s c cs d ds)
    then show ?case using ws [of cs] by simp
  next
    case (3 s c cs d ds)
    then show ?case using ws [of cs] by simp
  next
    case (4 s)
    show ?case by simp
  next
    case (5 s x v r c cs)
    then show ?case using ws [of cs] tl [of r c cs] by simp
  next
    case (6 s q s0 x k r0 colon r1)
    then show ?case using ws [of r1] tl [of r0 colon r1] by simp
  next
    case (7 s q s0 x k r0 colon r1 y v r c cs)
    then show ?case using ws [of cs] tl [of r c cs] by simp
  }
qed

definition JSON_parse :: "jsstring \<Rightarrow> json option" where
  "JSON_parse text =
     (case parse_value (skip_ws text) of
        None \<Rightarrow> None
      | Some (v, rest) \<Rightarrow> if skip_ws rest = [] then Some v else None)"

section \<open>JSON.stringify\<close>

text \<open>
  \<^verbatim>\<open>QuoteJSONString\<close>: the two-character escapes; a backslash, the letter u and four
  hexadecimal digits for the other control characters and for a surrogate that is not part
  of a pair; every other code unit as it is.
\<close>

definition hex_digit :: "nat \<Rightarrow> jschar" where
  "hex_digit n = (if n < 10 then of_nat (0x30 + n) else of_nat (0x61 + (n - 10)))"

definition unicode_escape :: "jschar \<Rightarrow> jsstring" where
  "unicode_escape c =
     [0x5C, ch CHR ''u'', hex_digit (unat c div 4096), hex_digit (unat c div 256 mod 16),
      hex_digit (unat c div 16 mod 16), hex_digit (unat c mod 16)]"

definition is_lead :: "jschar \<Rightarrow> bool" where
  "is_lead c = (0xD800 \<le> c \<and> c \<le> 0xDBFF)"

definition is_trail :: "jschar \<Rightarrow> bool" where
  "is_trail c = (0xDC00 \<le> c \<and> c \<le> 0xDFFF)"

fun quote_chars :: "jsstring \<Rightarrow> jsstring" where
  "quote_chars [] = []"
| "quote_chars (c # cs) =
     (if c = 0x08 then 0x5C # ch CHR ''b'' # quote_chars cs
      else if c = 0x09 then 0x5C # ch CHR ''t'' # quote_chars cs
      else if c = 0x0A then 0x5C # ch CHR ''n'' # quote_chars cs
      else if c = 0x0C then 0x5C # ch CHR ''f'' # quote_chars cs
      else if c = 0x0D then 0x5C # ch CHR ''r'' # quote_chars cs
      else if c = 0x22 then 0x5C # 0x22 # quote_chars cs
      else if c = 0x5C then 0x5C # 0x5C # quote_chars cs
      else if c < 0x20 then unicode_escape c @ quote_chars cs
      else if is_lead c then
        (case cs of
           [] \<Rightarrow> unicode_escape c
         | d # ds \<Rightarrow>
             if is_trail d then c # d # quote_chars ds
             else unicode_escape c @ quote_chars cs)
      else if is_trail c then unicode_escape c @ quote_chars cs
      else c # quote_chars cs)"

definition QuoteJSONString :: "jsstring \<Rightarrow> jsstring" where
  "QuoteJSONString s = 0x22 # quote_chars s @ [0x22]"

text \<open>
  \<^verbatim>\<open>JSON.stringify\<close> on the values above. The text of a number is a parameter: \<open>N m e\<close> is
  what JavaScript writes for the number \<open>JNum m e\<close>. \<^verbatim>\<open>NaN\<close> and the infinities are written
  as \<^verbatim>\<open>null\<close>. The members of an object are written in the order in which it lists them.
\<close>

fun join_commas :: "jsstring list \<Rightarrow> jsstring" where
  "join_commas [] = []"
| "join_commas [x] = x"
| "join_commas (x # y # xs) = x @ ch CHR '','' # join_commas (y # xs)"

fun JSON_stringify :: "(int \<Rightarrow> int \<Rightarrow> jsstring) \<Rightarrow> json \<Rightarrow> jsstring" where
  "JSON_stringify N JNull = ustr ''null''"
| "JSON_stringify N (JBool b) = (if b then ustr ''true'' else ustr ''false'')"
| "JSON_stringify N (JNum m e) = N m e"
| "JSON_stringify N (JNonFinite x) = ustr ''null''"
| "JSON_stringify N (JStr s) = QuoteJSONString s"
| "JSON_stringify N (JArr vs) =
     ch CHR ''['' # join_commas (map (JSON_stringify N) vs) @ [ch CHR '']'']"
| "JSON_stringify N (JObj kvs) =
     ch CHR ''{'' #
     join_commas (map (\<lambda>(k, v). QuoteJSONString k @ ch CHR '':'' # JSON_stringify N v) kvs) @
     [ch CHR ''}'']"

text \<open>
  The text that \<^verbatim>\<open>Socket.write\<close> hands to \<^verbatim>\<open>send\<close> for a frame \<open>Command command data\<close>:
  \<^verbatim>\<open>JSON.stringify\<close> of the object \<^verbatim>\<open>{command, data}\<close>, where a member whose value is
  \<^verbatim>\<open>undefined\<close> is left out.
\<close>

definition wire_text :: "(int \<Rightarrow> int \<Rightarrow> jsstring) \<Rightarrow> jsstring \<Rightarrow> jsval \<Rightarrow> jsstring" where
  "wire_text N command data =
     JSON_stringify N
       (JObj ((ustr ''command'', JStr command) #
              (case data of Undefined \<Rightarrow> [] | Val v \<Rightarrow> [(ustr ''data'', v)])))"

text \<open>
  The payloads of the round trip: arrays, strings and numbers, nested. A number counts
  when its text is read back as the same number in front of a comma, a closing bracket or a
  closing brace. \<open>starts_value\<close> says that a text begins with a character that is neither
  white space nor a closing bracket.
\<close>

definition reads_back :: "(int \<Rightarrow> int \<Rightarrow> jsstring) \<Rightarrow> int \<Rightarrow> int \<Rightarrow> bool" where
  "reads_back N m e =
     (\<forall>d rs. d \<in> {ch CHR '','', ch CHR '']'', ch CHR ''}''} \<longrightarrow>
        parse_value (N m e @ d # rs) = Some (JNum m e, d # rs))"

fun simple_payload :: "(int \<Rightarrow> int \<Rightarrow> jsstring) \<Rightarrow> json \<Rightarrow> bool" where
  "simple_payload N (JStr s) = True"
| "simple_payload N (JNum m e) = reads_back N m e"
| "simple_payload N (JArr vs) = list_all (simple_payload N) vs"
| "simple_payload N v = False"

definition starts_value :: "jsstring \<Rightarrow> bool" where
  "starts_value s = (case s of [] \<Rightarrow> False | c # cs \<Rightarrow> \<not> is_ws c \<and> c \<noteq> ch CHR '']'')"

section \<open>EventClass: socket.ts\<close>

text \<open>
  A registered object \<^verbatim>\<open>{fn, id}\<close>. Function values are taken from a type \<open>'f\<close>, and a
  parameter \<open>ap\<close> of the functions below says what calling one does: \<open>ap f args u\<close> runs
  \<open>f\<close> on the arguments in the state \<open>u\<close> of the rest of the program and completes or
  throws. The functions registered do not themselves call \<^verbatim>\<open>on\<close>, \<^verbatim>\<open>once\<close> or
  \<^verbatim>\<open>emitEvent\<close> of the object they are registered with (\<^verbatim>\<open>handleData\<close> does not).
  \<open>Plain f\<close> is the function given to \<^verbatim>\<open>on\<close>; \<open>OnceWrapper f event\<close> is the closure that
  \<^verbatim>\<open>once\<close> builds around \<open>f\<close>. Objects are compared by reference: \<open>ref\<close> is the
  reference of the registered object, taken from the counter \<open>fresh\<close>.
\<close>

datatype 'f callee = Plain 'f | OnceWrapper 'f jsstring

record 'f listener =
  fn :: "'f callee"
  id' :: jsstring
  ref :: nat

text \<open>
  \<^verbatim>\<open>events\<close> is a \<^verbatim>\<open>Map\<close> from event names to arrays, kept in insertion order;
  \<open>warnings\<close> collects what \<^verbatim>\<open>console.warn\<close> prints.
\<close>

record 'f EventClass =
  events :: "(jsstring \<times> 'f listener list) list"
  fresh :: nat
  warnings :: "jsstring list"

definition events_has :: "'f EventClass \<Rightarrow> jsstring \<Rightarrow> bool" where
  "events_has this name = (map_of (events this) name \<noteq> None)"

definition events_get :: "'f EventClass \<Rightarrow> jsstring \<Rightarrow> 'f listener list" where
  "events_get this name = (case map_of (events this) name of None \<Rightarrow> [] | Some arr \<Rightarrow> arr)"

definition createEvent :: "jsstring \<Rightarrow> 'f EventClass \<Rightarrow> 'f EventClass" where
  "createEvent name this =
     (if \<not> events_has this name then this\<lparr>events := AList.update name [] (events this)\<rparr> else this)"

definition EventClass_new :: "jsstring list \<Rightarrow> 'f EventClass" where
  "EventClass_new eventNames =
     fold createEvent eventNames \<lparr>events = [], fresh = 0, warnings = []\<rparr>"

text \<open>
  The test that opens \<^verbatim>\<open>emitEvent\<close>, \<^verbatim>\<open>on\<close> and \<^verbatim>\<open>once\<close>: an event that was not created
  is created with a warning.
\<close>

definition not_yet_created :: "jsstring \<Rightarrow> 'f EventClass \<Rightarrow> 'f EventClass" where
  "not_yet_created event this =
     (if \<not> events_has this event
      then this\<lparr>events := AList.update event [] (events this),
                warnings := warnings this @ [ustr ''event not yet created: '' @ event]\<rparr>
      else this)"

definition events_push :: "jsstring \<Rightarrow> 'f listener \<Rightarrow> 'f EventClass \<Rightarrow> 'f EventClass" where
  "events_push event l this = this\<lparr>events := AList.update event (events_get this event @ [l]) (events this)\<rparr>"

definition on :: "jsstring \<Rightarrow> 'f \<Rightarrow> jsstring option \<Rightarrow> 'f EventClass \<Rightarrow> 'f EventClass" where
  "on event f ident this =
     (let this1 = not_yet_created event this;
          entry = \<lparr>fn = Plain f,
                   id' = (case ident of None \<Rightarrow> ustr ''[unidentified]'' | Some i \<Rightarrow> i),
                   ref = fresh this1\<rparr>
      in events_push event entry (this1\<lparr>fresh := Suc (fresh this1)\<rparr>))"

definition once :: "jsstring \<Rightarrow> 'f \<Rightarrow> jsstring option \<Rightarrow> 'f EventClass \<Rightarrow> 'f EventClass" where
  "once event f ident this =
     (let this1 = not_yet_created event this;
          wrapper = \<lparr>fn = OnceWrapper f event,
                     id' = (case ident of None \<Rightarrow> ustr ''[unidentified oneshot]'' | Some i \<Rightarrow> i),
                     ref = fresh this1\<rparr>
      in events_push event wrapper (this1\<lparr>fresh := Suc (fresh this1)\<rparr>))"

text \<open>
  Modelled from the spec: \<^verbatim>\<open>array_remove\<close> comes from \<^verbatim>\<open>./util\<close>, which is missing
  from the sources. Following the spec (``identity-based removal from the ordered
  sequence''), it takes the first element that is the given object out of the array, in
  place: the elements after it move down by one and the array is one shorter.
\<close>

fun array_remove :: "'f listener list \<Rightarrow> 'f listener \<Rightarrow> 'f listener list" where
  "array_remove [] item = []"
| "array_remove (x # xs) item = (if ref x = ref item then xs else x # array_remove xs item)"

text \<open>
  The call \<^verbatim>\<open>o.fn(...args)\<close>. The wrapper of \<^verbatim>\<open>once\<close> calls the function and then takes
  itself out of \<^verbatim>\<open>this.events.get(event)\<close>; when the function throws, the removal is not
  reached.
\<close>

fun call_fn ::
  "('f \<Rightarrow> 'a list \<Rightarrow> 'u \<Rightarrow> 'u outcome) \<Rightarrow> 'f listener \<Rightarrow> 'a list \<Rightarrow>
   'f EventClass \<times> 'u \<Rightarrow> ('f EventClass \<times> 'u) outcome"
where
  "call_fn ap l args (this, u) =
     (case fn l of
        Plain f \<Rightarrow>
          (case ap f args u of
             Done u' \<Rightarrow> Done (this, u')
           | Threw e u' \<Rightarrow> Threw e (this, u'))
      | OnceWrapper f event \<Rightarrow>
          (case ap f args u of
             Done u' \<Rightarrow>
               Done (this\<lparr>events := AList.update event (array_remove (events_get this event) l)
                                       (events this)\<rparr>, u')
           | Threw e u' \<Rightarrow> Threw e (this, u')))"

text \<open>
  \<^verbatim>\<open>Array.prototype.forEach\<close> reads the length once and then visits the indices
  \<open>0, 1, \<dots>\<close> below it, calling the callback on the element that the array holds at
  the index at that moment and passing over an index that the array no longer has. Here
  \<open>n\<close> counts the indices still to visit and \<open>k\<close> is the index.
\<close>

fun forEach ::
  "('f \<Rightarrow> 'a list \<Rightarrow> 'u \<Rightarrow> 'u outcome) \<Rightarrow> jsstring \<Rightarrow> 'a list \<Rightarrow> nat \<Rightarrow> nat \<Rightarrow>
   'f EventClass \<times> 'u \<Rightarrow> ('f EventClass \<times> 'u) outcome"
where
  "forEach ap event args 0 k w = Done w"
| "forEach ap event args (Suc n) k w =
     (if k < length (events_get (fst w) event)
      then and_then (call_fn ap (events_get (fst w) event ! k) args w)
             (forEach ap event args n (Suc k))
      else forEach ap event args n (Suc k) w)"

definition emitEvent ::
  "('f \<Rightarrow> 'a list \<Rightarrow> 'u \<Rightarrow> 'u outcome) \<Rightarrow> jsstring \<Rightarrow> 'a list \<Rightarrow>
   'f EventClass \<times> 'u \<Rightarrow> ('f EventClass \<times> 'u) outcome"
where
  "emitEvent ap event args w =
     (let this1 = not_yet_created event (fst w)
      in forEach ap event args (length (events_get this1 event)) 0 (this1, snd w))"

text \<open>
  Calling functions one after the other on the same arguments, up to the first that throws;
  and an outcome of the listeners paired with a registry that they leave as it is.
\<close>

fun call_all ::
  "('f \<Rightarrow> 'a list \<Rightarrow> 'u \<Rightarrow> 'u outcome) \<Rightarrow> 'f list \<Rightarrow> 'a list \<Rightarrow> 'u \<Rightarrow> 'u outcome"
where
  "call_all ap [] args u = Done u"
| "call_all ap (f # fs) args u = and_then (ap f args u) (call_all ap fs args)"

fun with_this :: "'t \<Rightarrow> 'u outcome \<Rightarrow> ('t \<times> 'u) outcome" where
  "with_this this (Done u) = Done (this, u)"
| "with_this this (Threw e u) = Threw e (this, u)"

section \<open>Socket: socket.ts\<close>

text \<open>
  A \<^verbatim>\<open>Socket\<close> object is identified by its reference. The arguments of the \<^verbatim>\<open>data\<close>
  event are two values read from the parsed frame and the \<^verbatim>\<open>Socket\<close> itself.
\<close>

type_synonym sock = nat

datatype arg = AVal jsval | ASocket sock

text \<open>The constructor calls \<^verbatim>\<open>super("data")\<close>.\<close>

definition Socket_new :: "'f EventClass" where
  "Socket_new = EventClass_new [ustr ''data'']"

text \<open>
  The listener that the constructor registers for \<^verbatim>\<open>message\<close> on the WebSocket. It has
  no handler for exceptions: what \<^verbatim>\<open>JSON.parse\<close>, the property reads or a listener of
  \<^verbatim>\<open>data\<close> throw reaches the caller.
\<close>

definition on_message ::
  "('f \<Rightarrow> arg list \<Rightarrow> 'u \<Rightarrow> 'u outcome) \<Rightarrow> sock \<Rightarrow> jsstring \<Rightarrow>
   'f EventClass \<times> 'u \<Rightarrow> ('f EventClass \<times> 'u) outcome"
where
  "on_message ap this dataString w =
     (case JSON_parse dataString of
        None \<Rightarrow> Threw SyntaxError w
      | Some data \<Rightarrow>
          (case (get_prop (Val data) (ustr ''command''), get_prop (Val data) (ustr ''data'')) of
             (Inr c, Inr d) \<Rightarrow> emitEvent ap (ustr ''data'') [AVal c, AVal d, ASocket this] w
           | _ \<Rightarrow> Threw TypeError w))"

section \<open>The server: part\_000\<close>

text \<open>
  The frames handed to the transport are recorded in the order of the \<^verbatim>\<open>send\<close> calls: a
  text frame is the serialised envelope \<^verbatim>\<open>{command, data}\<close> built by \<^verbatim>\<open>Socket.write\<close>,
  recorded by the two arguments (its text is \<open>wire_text\<close> of them), a binary frame the
  buffer given to \<^verbatim>\<open>Socket.writeArrayBuffer\<close>.
\<close>

datatype 'b frame = Command jsstring jsval | Binary 'b

text \<open>
  The two callbacks that the server gives to \<^verbatim>\<open>canvas.createBlob\<close>, each with the buffer
  that it ends up with: both hand the blob to a \<^verbatim>\<open>FileReader\<close> and act on
  \<^verbatim>\<open>reader.result\<close> when the reader has loaded it. They run in a later turn of the event
  loop and are pending until then.
\<close>

datatype 'b task = JoinSnapshot sock 'b | SaveSnapshot 'b

record ('cv, 'b) server =
  canvas :: 'cv
  sockets :: "sock list"
  sent :: "(sock \<times> 'b frame) list"
  boards :: "(nat \<times> 'b) list"
  pending :: "'b task list"

text \<open>
  What the server calls and that is not in its two source files. The \<^verbatim>\<open>Canvas\<close> and
  \<^verbatim>\<open>Point\<close> classes are parameters: \<open>drawLine f t c s\<close> stands for
  \<^verbatim>\<open>canvas.drawLine(Point.fromArray(f), Point.fromArray(t), c, s)\<close>,
  \<open>fillCircleInSquare p s c\<close> for
  \<^verbatim>\<open>canvas.fillCircleInSquare(Point.fromArray(p).minus(new Point(s / 2)), s, c)\<close>,
  \<open>fill c\<close> for \<^verbatim>\<open>canvas.fill(c)\<close>, \<open>size_toArray\<close> for \<^verbatim>\<open>canvas.size.toArray()\<close> and
  \<open>encode\<close> for the image file that a surface is encoded to. The drawing calls on values
  of a payload may throw. \<open>send_ok s\<close> tells whether \<^verbatim>\<open>send\<close> on the WebSocket of \<open>s\<close>
  returns (otherwise it throws, as \<^verbatim>\<open>ws\<close> does on a socket that is not open); \<open>now\<close> is
  \<^verbatim>\<open>Date.now()\<close>.
\<close>

record ('cv, 'b) env =
  drawLine :: "jsval \<Rightarrow> jsval \<Rightarrow> jsval \<Rightarrow> jsval \<Rightarrow> 'cv \<Rightarrow> 'cv outcome"
  fillCircleInSquare :: "jsval \<Rightarrow> jsval \<Rightarrow> jsval \<Rightarrow> 'cv \<Rightarrow> 'cv outcome"
  fill :: "jsstring \<Rightarrow> 'cv \<Rightarrow> 'cv"
  size_toArray :: "'cv \<Rightarrow> json"
  encode :: "'cv \<Rightarrow> 'b"
  send_ok :: "sock \<Rightarrow> bool"
  now :: nat

text \<open>
  Modelled from the spec: \<^verbatim>\<open>Canvas.createBlob\<close> is missing from the sources. Following
  the spec (``snapshot capture must be synchronous with respect to canvas state at the
  instant it is requested'', ``asynchronous, yields raw encoded image''), it encodes the
  surface as it is when the call is made, and the callback receives that encoding once, in
  a later turn.
\<close>

definition createBlob ::
  "('cv, 'b) env \<Rightarrow> ('b \<Rightarrow> 'b task) \<Rightarrow> ('cv, 'b) server \<Rightarrow> ('cv, 'b) server"
where
  "createBlob E callback st = st\<lparr>pending := pending st @ [callback (encode E (canvas st))]\<rparr>"

text \<open>\<^verbatim>\<open>Socket.write\<close> and \<^verbatim>\<open>Socket.writeArrayBuffer\<close>, seen from the server.\<close>

definition Socket_write ::
  "('cv, 'b) env \<Rightarrow> sock \<Rightarrow> jsstring \<Rightarrow> jsval \<Rightarrow> ('cv, 'b) server \<Rightarrow> ('cv, 'b) server outcome"
where
  "Socket_write E s command data st =
     (if send_ok E s then Done (st\<lparr>sent := sent st @ [(s, Command command data)]\<rparr>)
      else Threw SendError st)"

definition writeArrayBuffer ::
  "('cv, 'b) env \<Rightarrow> sock \<Rightarrow> 'b \<Rightarrow> ('cv, 'b) server \<Rightarrow> ('cv, 'b) server outcome"
where
  "writeArrayBuffer E s buf st =
     (if send_ok E s then Done (st\<lparr>sent := sent st @ [(s, Binary buf)]\<rparr>)
      else Threw SendError st)"

text \<open>
  \<^verbatim>\<open>broadcast\<close>: \<^verbatim>\<open>forEach\<close> over \<^verbatim>\<open>sockets\<close>, which no write changes. An exception
  thrown by a write leaves the loop.
\<close>

fun broadcast_forEach ::
  "('cv, 'b) env \<Rightarrow> jsstring \<Rightarrow> jsval \<Rightarrow> sock option \<Rightarrow> sock list \<Rightarrow>
   ('cv, 'b) server \<Rightarrow> ('cv, 'b) server outcome"
where
  "broadcast_forEach E command data exclude [] st = Done st"
| "broadcast_forEach E command data exclude (socket # rest) st =
     (if Some socket \<noteq> exclude
      then and_then (Socket_write E socket command data st)
             (broadcast_forEach E command data exclude rest)
      else broadcast_forEach E command data exclude rest st)"

definition broadcast ::
  "('cv, 'b) env \<Rightarrow> jsstring \<Rightarrow> jsval \<Rightarrow> sock option \<Rightarrow>
   ('cv, 'b) server \<Rightarrow> ('cv, 'b) server outcome"
where
  "broadcast E command data exclude st =
     broadcast_forEach E command data exclude (sockets st) st"

text \<open>
  \<^verbatim>\<open>saveCanvas\<close>: with a buffer (an \<^verbatim>\<open>ArrayBuffer\<close> object is truthy) it writes the file
  named after the clock; without one it asks the canvas for a snapshot and saves it when
  the callbacks run.
\<close>

fun saveCanvas :: "('cv, 'b) env \<Rightarrow> 'b option \<Rightarrow> ('cv, 'b) server \<Rightarrow> ('cv, 'b) server" where
  "saveCanvas E (Some buffer) st = st\<lparr>boards := boards st @ [(now E, buffer)]\<rparr>"
| "saveCanvas E None st = createBlob E SaveSnapshot st"

text \<open>The body of a pending callback, run in a later turn (with the environment of that turn).\<close>

fun run_task :: "('cv, 'b) env \<Rightarrow> 'b task \<Rightarrow> ('cv, 'b) server \<Rightarrow> ('cv, 'b) server outcome" where
  "run_task E (JoinSnapshot socket result) st =
     and_then (writeArrayBuffer E socket result st)
       (\<lambda>st. Done (saveCanvas E (Some result) st))"
| "run_task E (SaveSnapshot result) st = Done (saveCanvas E (Some result) st)"

text \<open>Running a drawing call of the environment on the canvas of the server.\<close>

definition on_canvas ::
  "('cv \<Rightarrow> 'cv outcome) \<Rightarrow> ('cv, 'b) server \<Rightarrow> ('cv, 'b) server outcome"
where
  "on_canvas draw st =
     (case draw (canvas st) of
        Done cv \<Rightarrow> Done (st\<lparr>canvas := cv\<rparr>)
      | Threw e cv \<Rightarrow> Threw e (st\<lparr>canvas := cv\<rparr>))"

text \<open>
  \<^verbatim>\<open>handleData\<close>. The arguments come from \<^verbatim>\<open>JSON.parse\<close>, so \<open>command\<close> is any value;
  \<^verbatim>\<open>switch\<close> compares it with \<^verbatim>\<open>===\<close> to each label and has no default.
\<close>

definition handleData ::
  "('cv, 'b) env \<Rightarrow> jsval \<Rightarrow> jsval \<Rightarrow> sock \<Rightarrow> ('cv, 'b) server \<Rightarrow> ('cv, 'b) server outcome"
where
  "handleData E command data socket st =
    (if command = Val (JStr (ustr ''join'')) then
       (let st1 = st\<lparr>sockets := sockets st @ [socket]\<rparr> in
        and_then
          (Socket_write E socket (ustr ''join'')
             (Val (JObj [(ustr ''size'', size_toArray E (canvas st1))])) st1)
          (\<lambda>st2. Done (createBlob E (JoinSnapshot socket) st2)))
     else if command = Val (JStr (ustr ''line'')) then
       (case (get_prop data (ustr ''from''), get_prop data (ustr ''to''),
              get_prop data (ustr ''color''), get_prop data (ustr ''size'')) of
          (Inr f, Inr t, Inr c, Inr s) \<Rightarrow>
            and_then (on_canvas (drawLine E f t c s) st)
              (broadcast E (ustr ''line'') data None)
        | _ \<Rightarrow> Threw TypeError st)
     else if command = Val (JStr (ustr ''dot'')) then
       (case (get_prop data (ustr ''pos''), get_prop data (ustr ''size''),
              get_prop data (ustr ''color'')) of
          (Inr p, Inr s, Inr c) \<Rightarrow>
            and_then (on_canvas (fillCircleInSquare E p s c) st)
              (broadcast E (ustr ''dot'') data None)
        | _ \<Rightarrow> Threw TypeError st)
     else if command = Val (JStr (ustr ''erase'')) then
       (case (get_prop data (ustr ''from''), get_prop data (ustr ''to''),
              get_prop data (ustr ''size'')) of
          (Inr f, Inr t, Inr s) \<Rightarrow>
            and_then (on_canvas (drawLine E f t (Val (JStr (ustr ''white''))) s) st)
              (broadcast E (ustr ''erase'') data None)
        | _ \<Rightarrow> Threw TypeError st)
     else if command = Val (JStr (ustr ''clear'')) then
       (let st1 = saveCanvas E None st;
            st2 = st1\<lparr>canvas := fill E (ustr ''white'') (canvas st1)\<rparr>
        in broadcast E (ustr ''clear'') data None st2)
     else Done st)"

text \<open>
  The connection handler: a \<^verbatim>\<open>Socket\<close> around the new WebSocket, \<^verbatim>\<open>handleData\<close> as its
  listener of \<^verbatim>\<open>data\<close>, and the greeting. \<^verbatim>\<open>handleData\<close> is the only function that the
  server registers; the \<^verbatim>\<open>message\<close> listener calls it with the three arguments of the
  event.
\<close>

datatype listener_fn = HandleData

fun call_listener ::
  "('cv, 'b) env \<Rightarrow> listener_fn \<Rightarrow> arg list \<Rightarrow> ('cv, 'b) server \<Rightarrow> ('cv, 'b) server outcome"
where
  "call_listener E HandleData [AVal command, AVal data, ASocket socket] st =
     handleData E command data socket st"
| "call_listener E HandleData args st = Done st"

definition connection ::
  "('cv, 'b) env \<Rightarrow> sock \<Rightarrow> ('cv, 'b) server \<Rightarrow> (listener_fn EventClass \<times> ('cv, 'b) server) outcome"
where
  "connection E ws st =
     (let socket = on (ustr ''data'') HandleData None Socket_new
      in with_this socket (Socket_write E ws (ustr ''hi'') Undefined st))"

text \<open>
  A surface for examples: it records the drawing calls it receives, and a snapshot is the
  record at the time of the capture. Every send succeeds.
\<close>

datatype call =
    DrawLine jsval jsval jsval jsval
  | FillCircleInSquare jsval jsval jsval
  | Fill jsstring

definition demo :: "(call list, call list) env" where
  "demo = \<lparr>
     drawLine = (\<lambda>f t c s cv. Done (cv @ [DrawLine f t c s])),
     fillCircleInSquare = (\<lambda>p s c cv. Done (cv @ [FillCircleInSquare p s c])),
     fill = (\<lambda>c cv. cv @ [Fill c]),
     size_toArray = (\<lambda>cv. JArr [JNum 1920 0, JNum 1080 0]),
     encode = (\<lambda>cv. cv),
     send_ok = (\<lambda>s. True),
     now = 0 \<rparr>"

definition start :: "(call list, call list) server" where
  "start = \<lparr> canvas = [Fill (ustr ''white'')], sockets = [], sent = [], boards = [],
             pending = [] \<rparr>"

definition a_line :: jsval where
  "a_line = Val (JObj [(ustr ''from'', JArr [JNum 0 0, JNum 0 0]),
                       (ustr ''to'', JArr [JNum 5 0, JNum 7 0]),
                       (ustr ''color'', JStr (ustr ''red'')),
                       (ustr ''size'', JNum 2 0)])"

definition a_dot :: jsval where
  "a_dot = Val (JObj [(ustr ''pos'', JArr [JNum 100 0, JNum 100 0]),
                      (ustr ''size'', JNum 20 0),
                      (ustr ''color'', JStr (ustr ''blue''))])"


definition drawn :: "(call list, call list) server" where
  "drawn = start\<lparr>canvas := [Fill (ustr ''white''), DrawLine Undefined Undefined Undefined Undefined],
                 sockets := [0, 1]\<rparr>"

text \<open>Listeners for examples: a function is a name, and calling it records the call.\<close>

definition recorder :: "string \<Rightarrow> 'a list \<Rightarrow> (string \<times> 'a list) list \<Rightarrow> (string \<times> 'a list) list outcome" where
  "recorder f args log = Done (log @ [(f, args)])"

definition once_then_on :: "string EventClass" where
  "once_then_on =
     on (ustr ''meow'') ''B'' None
       (once (ustr ''meow'') ''A'' None (EventClass_new [ustr ''meow'']))"

definition four_once :: "string EventClass" where
  "four_once =
     once (ustr ''meow'') ''D'' None
       (once (ustr ''meow'') ''C'' None
          (once (ustr ''meow'') ''B'' None
             (once (ustr ''meow'') ''A'' None (EventClass_new [ustr ''meow'']))))"

definition listening :: "string EventClass" where
  "listening = on (ustr ''data'') ''handleData'' None Socket_new"

text \<open>
  A number printer for examples: it writes the integers below \<open>10 ^ 21\<close> in magnitude (with
  \<open>e = 0\<close>) by their decimal digits, as JavaScript does, and writes no other number.
\<close>

function decimal :: "nat \<Rightarrow> jsstring" where
  "decimal n = (if n < 10 then [of_nat (0x30 + n)] else decimal (n div 10) @ [of_nat (0x30 + n mod 10)])"
  by pat_completeness auto
termination
  by (relation "measure (\<lambda>n. n)") auto

definition integer_text :: "int \<Rightarrow> int \<Rightarrow> jsstring" where
  "integer_text m e =
     (if e = 0 \<and> \<bar>m\<bar> < 10 ^ 21
      then (if m < 0 then ch CHR ''-'' # decimal (nat (- m)) else decimal (nat m))
      else [])"

definition a_payload :: json where
  "a_payload = JArr [JNum 1920 0, JStr (ustr ''red''), JArr [JNum (- 5) 0]]"

section \<open>The parser consumes its input\<close>

lemma skip_ws_length: "length (skip_ws s) \<le> length s"
  by (simp add: skip_ws_def length_dropWhile_le)

lemma skip_ws_Cons_length: "skip_ws s = c # cs \<Longrightarrow> length cs < length s"
  using skip_ws_length [of s] by simp

lemma parse_chars_shorter: "parse_chars s = Some (k, r) \<Longrightarrow> length r < length s"
proof (induction s arbitrary: k r rule: parse_chars.induct)
  case 1
  then show ?case by simp
next
  case (2 c cs)
  then show ?case
    by (fastforce split: if_splits list.splits option.splits)
qed

lemma parse_digits_shorter: "parse_digits s = Some (ds, r) \<Longrightarrow> length r < length s"
proof -
  assume a: "parse_digits s = Some (ds, r)"
  then have "takeWhile is_digit s \<noteq> []" and r: "r = dropWhile is_digit s"
    by (auto simp: parse_digits_def split: if_splits)
  then have "0 < length (takeWhile is_digit s)" by simp
  moreover have "length (takeWhile is_digit s) + length (dropWhile is_digit s) = length s"
    by (metis length_append takeWhile_dropWhile_id)
  ultimately have "length (dropWhile is_digit s) < length s" by linarith
  with r show ?thesis by simp
qed

lemma parse_int_part_shorter: "parse_int_part s = Some (ds, r) \<Longrightarrow> length r < length s"
  by (auto simp: parse_int_part_def split: list.splits if_splits dest: parse_digits_shorter)

lemma parse_frac_shorter: "parse_frac s = Some (ds, r) \<Longrightarrow> length r \<le> length s"
  by (auto simp: parse_frac_def split: list.splits if_splits dest!: parse_digits_shorter)

lemma parse_exp_shorter: "parse_exp s = Some (e, r) \<Longrightarrow> length r \<le> length s"
  by (auto simp: parse_exp_def split: list.splits if_splits dest!: parse_digits_shorter)

lemma parse_number_shorter: "parse_number s = Some (v, r) \<Longrightarrow> length r < length s"
  by (auto simp: parse_number_def Let_def split: list.splits if_splits option.splits prod.splits
        dest!: parse_int_part_shorter parse_frac_shorter parse_exp_shorter)

lemma parse_literal_shorter:
  "word \<noteq> [] \<Longrightarrow> parse_literal word v s = Some (v', r) \<Longrightarrow> length r < length s"
proof -
  assume w: "word \<noteq> []" and p: "parse_literal word v s = Some (v', r)"
  from p have t: "take (length word) s = ustr word" and r: "r = drop (length word) s"
    by (auto simp: parse_literal_def split: if_splits)
  from t have "length (take (length word) s) = length word"
    by (simp add: ustr_def)
  then have "length word \<le> length s" by simp
  with w r show ?thesis by (cases word) simp_all
qed


lemma parse_value_Some:
  assumes "parse_value (c # cs) = Some (v, r)"
    and obj: "\<And>kvs d ds. c = ch CHR ''{'' \<Longrightarrow> skip_ws cs = d # ds \<Longrightarrow> d \<noteq> ch CHR ''}'' \<Longrightarrow>
                parse_members (skip_ws cs) = Some (kvs, r) \<Longrightarrow> length r < length (skip_ws cs)"
    and arr: "\<And>vs d ds. c \<noteq> ch CHR ''{'' \<Longrightarrow> c = ch CHR ''['' \<Longrightarrow> skip_ws cs = d # ds \<Longrightarrow>
                d \<noteq> ch CHR '']'' \<Longrightarrow>
                parse_elements (skip_ws cs) = Some (vs, r) \<Longrightarrow> length r < length (skip_ws cs)"
  shows "length r < length (c # cs)"
proof -
  consider (obj) "c = ch CHR ''{''" | (arr) "c \<noteq> ch CHR ''{''" "c = ch CHR ''[''"
    | (str) "c \<noteq> ch CHR ''{''" "c \<noteq> ch CHR ''[''" "c = 0x22"
    | (other) "c \<noteq> ch CHR ''{''" "c \<noteq> ch CHR ''[''" "c \<noteq> 0x22"
    by blast
  then show ?thesis
  proof cases
    case obj
    show ?thesis
    proof (cases "skip_ws cs")
      case Nil
      with assms(1) obj show ?thesis by simp
    next
      case (Cons d ds)
      show ?thesis
      proof (cases "d = ch CHR ''}''")
        case True
        with assms(1) obj Cons have "r = ds" by simp
        with skip_ws_Cons_length [OF Cons] show ?thesis by simp
      next
        case False
        with assms(1) obj Cons obtain kvs where "parse_members (skip_ws cs) = Some (kvs, r)"
          by (auto simp del: parse_members.simps)
        from assms(2) [OF obj Cons False this] skip_ws_length [of cs] show ?thesis by simp
      qed
    qed
  next
    case arr
    show ?thesis
    proof (cases "skip_ws cs")
      case Nil
      with assms(1) arr show ?thesis by simp
    next
      case (Cons d ds)
      show ?thesis
      proof (cases "d = ch CHR '']''")
        case True
        with assms(1) arr Cons have "r = ds" by simp
        with skip_ws_Cons_length [OF Cons] show ?thesis by simp
      next
        case False
        with assms(1) arr Cons obtain vs where "parse_elements (skip_ws cs) = Some (vs, r)"
          by (auto simp del: parse_elements.simps)
        from assms(3) [OF arr Cons False this] skip_ws_length [of cs] show ?thesis by simp
      qed
    qed
  next
    case str
    with assms(1) obtain k where "parse_chars cs = Some (k, r)"
      by auto
    from parse_chars_shorter [OF this] show ?thesis by simp
  next
    case other
    with assms(1) have
      "parse_literal ''true'' (JBool True) (c # cs) = Some (v, r) \<or>
       parse_literal ''false'' (JBool False) (c # cs) = Some (v, r) \<or>
       parse_literal ''null'' JNull (c # cs) = Some (v, r) \<or>
       parse_number (c # cs) = Some (v, r)"
      by (simp split: if_splits)
    then show ?thesis
      using parse_literal_shorter [of "''true''" "JBool True" "c # cs" v r]
        parse_literal_shorter [of "''false''" "JBool False" "c # cs" v r]
        parse_literal_shorter [of "''null''" JNull "c # cs" v r]
        parse_number_shorter [of "c # cs" v r]
      by auto
  qed
qed

lemma parse_elements_Some:
  assumes "parse_elements s = Some (vs, r')"
  obtains v r c cs where "parse_value s = Some (v, r)" "length r < length s" "skip_ws r = c # cs"
    "(c = ch CHR '','' \<and> (\<exists>vs'. parse_elements (skip_ws cs) = Some (vs', r'))) \<or>
     (c \<noteq> ch CHR '','' \<and> c = ch CHR '']'' \<and> r' = cs)"
  using assms
  by (subst (asm) parse_elements.simps)
     (auto simp del: parse_value.simps parse_elements.simps
        split: option.splits if_splits list.splits)

lemma parse_members_Some:
  assumes "parse_members s = Some (kvs, r')"
  obtains q s0 k r0 r1 v r c cs where "s = q # s0" "q = 0x22" "parse_chars s0 = Some (k, r0)"
    "length r0 < length s" "skip_ws r0 = ch CHR '':'' # r1"
    "parse_value (skip_ws r1) = Some (v, r)" "length r < length s" "skip_ws r = c # cs"
    "(c = ch CHR '','' \<and> (\<exists>kvs'. parse_members (skip_ws cs) = Some (kvs', r'))) \<or>
     (c \<noteq> ch CHR '','' \<and> c = ch CHR ''}'' \<and> r' = cs)"
  using assms
  by (subst (asm) parse_members.simps)
     (auto simp del: parse_value.simps parse_members.simps
        split: option.splits if_splits list.splits)

text \<open>
  A value, the elements of an array and the members of an object each take at least one
  character, so the length tests in the three functions never fail.
\<close>

lemma parse_shorter:
  "\<forall>v r. parse_value s = Some (v, r) \<longrightarrow> length r < length s"
  "\<forall>vs r. parse_elements s1 = Some (vs, r) \<longrightarrow> length r < length s1"
  "\<forall>kvs r. parse_members s2 = Some (kvs, r) \<longrightarrow> length r < length s2"
proof (induction s and s1 and s2 rule: parse_value_parse_elements_parse_members.induct)
  case (1 s)
  show ?case
  proof (intro allI impI)
    fix v r
    assume a: "parse_value s = Some (v, r)"
    then obtain c cs where s: "s = c # cs"
      by (cases s) auto
    have "length r < length (c # cs)"
    proof (rule parse_value_Some)
      show "parse_value (c # cs) = Some (v, r)" using a s by simp
    next
      fix kvs d ds
      assume "c = ch CHR ''{''" "skip_ws cs = d # ds" "d \<noteq> ch CHR ''}''"
        and p: "parse_members (skip_ws cs) = Some (kvs, r)"
      from "1.IH"(1) [OF s this(1-3)] p show "length r < length (skip_ws cs)" by blast
    next
      fix vs d ds
      assume "c \<noteq> ch CHR ''{''" "c = ch CHR ''[''" "skip_ws cs = d # ds" "d \<noteq> ch CHR '']''"
        and p: "parse_elements (skip_ws cs) = Some (vs, r)"
      from "1.IH"(2) [OF s this(1-4)] p show "length r < length (skip_ws cs)" by blast
    qed
    with s show "length r < length s" by simp
  qed
next
  case (2 s)
  show ?case
  proof (intro allI impI)
    fix vs r'
    assume a: "parse_elements s = Some (vs, r')"
    from a obtain v r c cs where v: "parse_value s = Some (v, r)" and l: "length r < length s"
      and w: "skip_ws r = c # cs"
      and d: "(c = ch CHR '','' \<and> (\<exists>vs'. parse_elements (skip_ws cs) = Some (vs', r'))) \<or>
              (c \<noteq> ch CHR '','' \<and> c = ch CHR '']'' \<and> r' = cs)"
      by (rule parse_elements_Some)
    from d show "length r' < length s"
    proof
      assume "c = ch CHR '','' \<and> (\<exists>vs'. parse_elements (skip_ws cs) = Some (vs', r'))"
      then obtain vs' where c: "c = ch CHR '',''"
        and p: "parse_elements (skip_ws cs) = Some (vs', r')" by blast
      from "2.IH"(2) [OF v refl l w c] p have "length r' < length (skip_ws cs)" by blast
      with skip_ws_length [of cs] skip_ws_Cons_length [OF w] l show ?thesis by simp
    next
      assume "c \<noteq> ch CHR '','' \<and> c = ch CHR '']'' \<and> r' = cs"
      with skip_ws_Cons_length [OF w] l show ?thesis by simp
    qed
  qed
next
  case (3 s)
  show ?case
  proof (intro allI impI)
    fix kvs r'
    assume a: "parse_members s = Some (kvs, r')"
    from a obtain q s0 k r0 r1 v r c cs where s: "s = q # s0" and q: "q = 0x22"
      and k: "parse_chars s0 = Some (k, r0)" and l0: "length r0 < length s"
      and w0: "skip_ws r0 = ch CHR '':'' # r1"
      and v: "parse_value (skip_ws r1) = Some (v, r)" and l: "length r < length s"
      and w: "skip_ws r = c # cs"
      and d: "(c = ch CHR '','' \<and> (\<exists>kvs'. parse_members (skip_ws cs) = Some (kvs', r'))) \<or>
              (c \<noteq> ch CHR '','' \<and> c = ch CHR ''}'' \<and> r' = cs)"
      by (rule parse_members_Some)
    from d show "length r' < length s"
    proof
      assume "c = ch CHR '','' \<and> (\<exists>kvs'. parse_members (skip_ws cs) = Some (kvs', r'))"
      then obtain kvs' where c: "c = ch CHR '',''"
        and p: "parse_members (skip_ws cs) = Some (kvs', r')" by blast
      from "3.IH"(2) [OF s q k refl l0 w0 refl v refl l w c] p
      have "length r' < length (skip_ws cs)" by blast
      with skip_ws_length [of cs] skip_ws_Cons_length [OF w] l show ?thesis by simp
    next
      assume "c \<noteq> ch CHR '','' \<and> c = ch CHR ''}'' \<and> r' = cs"
      with skip_ws_Cons_length [OF w] l show ?thesis by simp
    qed
  qed
qed

lemma parse_value_shorter: "parse_value s = Some (v, r) \<Longrightarrow> length r < length s"
  using parse_shorter(1) by blast

section \<open>Broadcast\<close>

lemma not_threw_Done: "\<not> threw r \<Longrightarrow> r = Done (state_of r)"
  by (cases r) simp_all

lemma and_then_not_threw:
  "\<not> threw (and_then r f) \<Longrightarrow> \<exists>s. r = Done s \<and> \<not> threw (f s)"
  by (cases r) simp_all

lemma broadcast_forEach_state:
  "state_of (broadcast_forEach E c d ex ss st) =
     st\<lparr>sent := sent st @ map (\<lambda>s. (s, Command c d))
                (takeWhile (send_ok E) (filter (\<lambda>s. Some s \<noteq> ex) ss))\<rparr>"
  by (induction ss arbitrary: st) (simp_all add: Socket_write_def)

lemma broadcast_forEach_threw:
  "threw (broadcast_forEach E c d ex ss st) \<longleftrightarrow>
     \<not> list_all (send_ok E) (filter (\<lambda>s. Some s \<noteq> ex) ss)"
  by (induction ss arbitrary: st) (simp_all add: Socket_write_def)

lemma broadcast_forEach_error:
  "broadcast_forEach E c d ex ss st = Threw e st' \<Longrightarrow> e = SendError"
  by (induction ss arbitrary: st) (auto simp: Socket_write_def split: if_splits)

lemma broadcast_state:
  "state_of (broadcast E c d ex st) =
     st\<lparr>sent := sent st @ map (\<lambda>s. (s, Command c d))
                (takeWhile (send_ok E) (filter (\<lambda>s. Some s \<noteq> ex) (sockets st)))\<rparr>"
  by (simp add: broadcast_def broadcast_forEach_state)

lemma broadcast_threw:
  "threw (broadcast E c d ex st) \<longleftrightarrow>
     \<not> list_all (send_ok E) (filter (\<lambda>s. Some s \<noteq> ex) (sockets st))"
  by (simp add: broadcast_def broadcast_forEach_threw)

lemma takeWhile_list_all: "list_all P xs \<Longrightarrow> takeWhile P xs = xs"
  by (induction xs) simp_all

lemma broadcast_all_Done:
  assumes "\<not> threw (broadcast E c d None st)"
  shows "broadcast E c d None st =
           Done (st\<lparr>sent := sent st @ map (\<lambda>s. (s, Command c d)) (sockets st)\<rparr>)"
proof -
  from assms have "list_all (send_ok E) (sockets st)"
    by (simp add: broadcast_threw)
  then have "state_of (broadcast E c d None st) =
               st\<lparr>sent := sent st @ map (\<lambda>s. (s, Command c d)) (sockets st)\<rparr>"
    by (simp add: broadcast_state takeWhile_list_all)
  with not_threw_Done [OF assms] show ?thesis by simp
qed

lemma on_canvas_Done:
  "on_canvas draw st = Done st1 \<Longrightarrow> sent st1 = sent st \<and> sockets st1 = sockets st"
  by (auto simp: on_canvas_def split: outcome.splits)

lemma draw_then_broadcast:
  assumes "\<not> threw (and_then (on_canvas draw st) (broadcast E c d None))"
  shows "sent (state_of (and_then (on_canvas draw st) (broadcast E c d None))) =
           sent st @ map (\<lambda>s. (s, Command c d)) (sockets st)"
proof -
  from and_then_not_threw [OF assms] obtain st1
    where st1: "on_canvas draw st = Done st1" and ok: "\<not> threw (broadcast E c d None st1)"
    by blast
  from on_canvas_Done [OF st1] broadcast_all_Done [OF ok] st1
  show ?thesis by simp
qed

section \<open>Commands\<close>

text \<open>
  What the four relaying cases of \<^verbatim>\<open>handleData\<close> write when they complete: one frame for
  each entry of the registry, in registry order, with the command and the payload as
  received.
\<close>

lemma relay_frames:
  assumes "c \<in> {ustr ''line'', ustr ''dot'', ustr ''erase'', ustr ''clear''}"
    and "\<not> threw (handleData E (Val (JStr c)) data socket st)"
  shows "sent (state_of (handleData E (Val (JStr c)) data socket st)) =
           sent st @ map (\<lambda>s. (s, Command c data)) (sockets st)"
proof -
  consider "c = ustr ''line''" | "c = ustr ''dot''" | "c = ustr ''erase''"
    | "c = ustr ''clear''"
    using assms(1) by blast
  then show ?thesis
  proof cases
    case 1
    with assms(2) show ?thesis
      by (auto simp: handleData_def ustr_def draw_then_broadcast
            split: sum.splits prod.splits)
  next
    case 2
    with assms(2) show ?thesis
      by (auto simp: handleData_def ustr_def draw_then_broadcast
            split: sum.splits prod.splits)
  next
    case 3
    with assms(2) show ?thesis
      by (auto simp: handleData_def ustr_def draw_then_broadcast
            split: sum.splits prod.splits)
  next
    case 4
    with assms(2) show ?thesis
      by (simp add: handleData_def ustr_def broadcast_all_Done createBlob_def)
  qed
qed

text \<open>
  When the third argument is given, \<^verbatim>\<open>broadcast\<close> passes over that session: the guard
  \<^verbatim>\<open>socket !== exclude\<close> is there for it.
\<close>

lemma broadcast_exclude:
  "sent (state_of (broadcast E c d (Some s) st)) =
     sent st @ map (\<lambda>t. (t, Command c d))
                (takeWhile (send_ok E) (filter (\<lambda>t. t \<noteq> s) (sockets st)))"
  by (simp add: broadcast_state)

text \<open>
  C1: a drawing command is delivered to every session of the registry except the one that
  sent it. The code does not do this. \<^verbatim>\<open>broadcast\<close> takes \<^verbatim>\<open>exclude\<close> and
  \<^verbatim>\<open>handleData\<close> holds the sender, but its four calls of \<^verbatim>\<open>broadcast\<close> pass no third
  argument: with sessions 0 and 1 registered, a \<^verbatim>\<open>line\<close> sent by session 0 is written to
  session 0 as well.
\<close>

theorem C1_sender_receives_echo:
  "sent (state_of (handleData demo (Val (JStr (ustr ''line''))) a_line 0
                     (start\<lparr>sockets := [0, 1]\<rparr>))) =
     [(0, Command (ustr ''line'') a_line), (1, Command (ustr ''line'') a_line)]"
  by (simp add: handleData_def ustr_def a_line_def demo_def start_def on_canvas_def
        broadcast_def Socket_write_def)

text \<open>
  C4 as the spec states it: a write that fails for one session does not keep the others
  from receiving the command. As stated it fails: \<^verbatim>\<open>broadcast\<close> has no handler around
  \<^verbatim>\<open>socket.write\<close>, so when \<^verbatim>\<open>send\<close> throws for session 0 the loop is left and session 2,
  which comes after it in the registry, receives nothing.
\<close>

theorem C4_failed_write_aborts_broadcast:
  "broadcast (demo\<lparr>send_ok := (\<lambda>s. s \<noteq> 0)\<rparr>) (ustr ''clear'') Undefined None
     (start\<lparr>sockets := [1, 0, 2]\<rparr>) =
   Threw SendError
     (start\<lparr>sockets := [1, 0, 2], sent := [(1, Command (ustr ''clear'') Undefined)]\<rparr>)"
  by (simp add: broadcast_def Socket_write_def demo_def start_def)

text \<open>
  C4, amended: \<^verbatim>\<open>broadcast\<close> writes to the sessions other than \<^verbatim>\<open>exclude\<close> in registry order
  and stops at the first write that throws. The sessions before it have received the
  command, that session and all those after it receive nothing, and the exception reaches
  the caller; every session receives the command exactly when no write throws.
\<close>

theorem C4_broadcast_stops_at_first_failure:
  "sent (state_of (broadcast E c d ex st)) =
     sent st @ map (\<lambda>s. (s, Command c d))
                (takeWhile (send_ok E) (filter (\<lambda>s. Some s \<noteq> ex) (sockets st))) \<and>
   threw (broadcast E c d ex st) =
     (\<not> list_all (send_ok E) (filter (\<lambda>s. Some s \<noteq> ex) (sockets st)))"
  by (simp add: broadcast_state broadcast_threw)

text \<open>
  C8: an envelope whose command is a string other than \<^verbatim>\<open>join\<close>, \<^verbatim>\<open>line\<close>, \<^verbatim>\<open>dot\<close>,
  \<^verbatim>\<open>erase\<close>, \<^verbatim>\<open>clear\<close> is ignored: \<^verbatim>\<open>handleData\<close> returns normally and the canvas, the
  registry, the frames sent, the saved boards and the pending callbacks are as before.
\<close>

theorem C8_unknown_command_ignored:
  assumes "c \<notin> {ustr ''join'', ustr ''line'', ustr ''dot'', ustr ''erase'', ustr ''clear''}"
  shows "handleData E (Val (JStr c)) data socket st = Done st"
  using assms by (simp add: handleData_def)

theorem C8_unknown_command_ignored_witness:
  "ustr ''undo'' \<notin> {ustr ''join'', ustr ''line'', ustr ''dot'', ustr ''erase'', ustr ''clear''} \<and>
   handleData demo (Val (JStr (ustr ''undo''))) a_line 0 (start\<lparr>sockets := [0, 1]\<rparr>) =
     Done (start\<lparr>sockets := [0, 1]\<rparr>)"
proof -
  have h: "ustr ''undo'' \<notin>
             {ustr ''join'', ustr ''line'', ustr ''dot'', ustr ''erase'', ustr ''clear''}"
    by (simp add: ustr_def)
  from C8_unknown_command_ignored [OF h] h show ?thesis by simp
qed





text \<open>
  C2 as the spec states it: every session that sends \<^verbatim>\<open>join\<close> is registered, receives the
  \<^verbatim>\<open>join\<close> reply, then one binary snapshot, and the snapshot is saved. As stated it fails
  when a write to the joining session throws. When the reply throws, session 3 is in the
  registry but nothing is written to it and no snapshot callback is left pending. When the
  binary write throws in the callback, \<^verbatim>\<open>saveCanvas\<close>, which follows it, is not reached
  and the snapshot is not saved.
\<close>

theorem C2_join_write_throws:
  "handleData (demo\<lparr>send_ok := (\<lambda>s. s \<noteq> 3)\<rparr>) (Val (JStr (ustr ''join''))) Undefined 3
     (start\<lparr>sockets := [1]\<rparr>) =
   Threw SendError (start\<lparr>sockets := [1, 3]\<rparr>) \<and>
   run_task (demo\<lparr>send_ok := (\<lambda>s. s \<noteq> 3)\<rparr>) (JoinSnapshot 3 [Fill (ustr ''white'')])
     (start\<lparr>sockets := [1, 3]\<rparr>) =
   Threw SendError (start\<lparr>sockets := [1, 3]\<rparr>)"
  by (simp add: handleData_def Socket_write_def writeArrayBuffer_def createBlob_def demo_def
        start_def Let_def)

text \<open>
  C2, amended: a session that sends \<^verbatim>\<open>join\<close> and whose channel accepts the writes (\<^verbatim>\<open>send\<close>
  does not throw) is appended to the registry and is sent one \<^verbatim>\<open>join\<close> frame with the
  canvas size; nothing is written to any other session. One callback is left pending,
  holding the snapshot of the canvas; when it runs it writes one binary frame, to the
  joining session only, and saves the same snapshot under the clock's reading.
\<close>

theorem C2_join:
  assumes "send_ok E s" and "send_ok E' s"
  shows "handleData E (Val (JStr (ustr ''join''))) data s st =
           Done (st\<lparr>sockets := sockets st @ [s],
                    sent := sent st @
                      [(s, Command (ustr ''join'')
                             (Val (JObj [(ustr ''size'', size_toArray E (canvas st))])))],
                    pending := pending st @ [JoinSnapshot s (encode E (canvas st))]\<rparr>) \<and>
         run_task E' (JoinSnapshot s (encode E (canvas st))) st' =
           Done (st'\<lparr>sent := sent st' @ [(s, Binary (encode E (canvas st)))],
                     boards := boards st' @ [(now E', encode E (canvas st))]\<rparr>)"
  using assms by (simp add: handleData_def Socket_write_def writeArrayBuffer_def createBlob_def Let_def)

theorem C2_join_witness:
  "send_ok demo 3 \<and>
   handleData demo (Val (JStr (ustr ''join''))) Undefined 3 (start\<lparr>sockets := [1]\<rparr>) =
     Done (start\<lparr>sockets := [1, 3],
                 sent := [(3, Command (ustr ''join'')
                                (Val (JObj [(ustr ''size'', JArr [JNum 1920 0, JNum 1080 0])])))],
                 pending := [JoinSnapshot 3 [Fill (ustr ''white'')]]\<rparr>) \<and>
   run_task demo (JoinSnapshot 3 [Fill (ustr ''white'')])
       (start\<lparr>sockets := [1, 3],
              sent := [(3, Command (ustr ''join'')
                             (Val (JObj [(ustr ''size'', JArr [JNum 1920 0, JNum 1080 0])])))]\<rparr>) =
     Done (start\<lparr>sockets := [1, 3],
                 sent := [(3, Command (ustr ''join'')
                                (Val (JObj [(ustr ''size'', JArr [JNum 1920 0, JNum 1080 0])]))),
                          (3, Binary [Fill (ustr ''white'')])],
                 boards := [(0, [Fill (ustr ''white'')])]\<rparr>)"
proof -
  have h: "send_ok demo 3"
    by (simp add: demo_def)
  from C2_join [OF h h, of Undefined "start\<lparr>sockets := [1]\<rparr>"
      "start\<lparr>sockets := [1, 3],
              sent := [(3, Command (ustr ''join'')
                             (Val (JObj [(ustr ''size'', JArr [JNum 1920 0, JNum 1080 0])])))]\<rparr>"] h
  show ?thesis
    by (simp add: demo_def start_def)
qed

text \<open>
  C5: handling \<^verbatim>\<open>clear\<close> leaves one callback pending, which holds the snapshot of the
  canvas taken before the fill, and which saves that snapshot once when it runs; the canvas
  is then filled with white, and the frames written carry \<^verbatim>\<open>clear\<close> with the payload as
  received, to the sessions of the registry in order (to all of them when no write throws).
\<close>

theorem C5_clear:
  "state_of (handleData E (Val (JStr (ustr ''clear''))) data s st) =
     st\<lparr>canvas := fill E (ustr ''white'') (canvas st),
         pending := pending st @ [SaveSnapshot (encode E (canvas st))],
         sent := sent st @ map (\<lambda>t. (t, Command (ustr ''clear'') data))
                                (takeWhile (send_ok E) (sockets st))\<rparr> \<and>
   run_task E' (SaveSnapshot (encode E (canvas st))) st' =
     Done (st'\<lparr>boards := boards st' @ [(now E', encode E (canvas st))]\<rparr>) \<and>
   (list_all (send_ok E) (sockets st) \<longrightarrow>
      handleData E (Val (JStr (ustr ''clear''))) data s st =
        Done (st\<lparr>canvas := fill E (ustr ''white'') (canvas st),
                 pending := pending st @ [SaveSnapshot (encode E (canvas st))],
                 sent := sent st @ map (\<lambda>t. (t, Command (ustr ''clear'') data)) (sockets st)\<rparr>))"
proof (intro conjI impI)
  show "state_of (handleData E (Val (JStr (ustr ''clear''))) data s st) =
     st\<lparr>canvas := fill E (ustr ''white'') (canvas st),
         pending := pending st @ [SaveSnapshot (encode E (canvas st))],
         sent := sent st @ map (\<lambda>t. (t, Command (ustr ''clear'') data))
                                (takeWhile (send_ok E) (sockets st))\<rparr>"
    by (simp add: handleData_def ustr_def broadcast_state createBlob_def Let_def)
next
  show "run_task E' (SaveSnapshot (encode E (canvas st))) st' =
     Done (st'\<lparr>boards := boards st' @ [(now E', encode E (canvas st))]\<rparr>)"
    by simp
next
  assume ok: "list_all (send_ok E) (sockets st)"
  let ?st2 = "st\<lparr>pending := pending st @ [SaveSnapshot (encode E (canvas st))],
                 canvas := fill E (ustr ''white'') (canvas st)\<rparr>"
  have "\<not> threw (broadcast E (ustr ''clear'') data None ?st2)"
    using ok by (simp add: broadcast_threw)
  from broadcast_all_Done [OF this]
  show "handleData E (Val (JStr (ustr ''clear''))) data s st =
        Done (st\<lparr>canvas := fill E (ustr ''white'') (canvas st),
                 pending := pending st @ [SaveSnapshot (encode E (canvas st))],
                 sent := sent st @ map (\<lambda>t. (t, Command (ustr ''clear'') data)) (sockets st)\<rparr>)"
    by (simp add: handleData_def ustr_def createBlob_def Let_def)
qed

theorem C5_clear_witness:
  "list_all (send_ok demo) (sockets drawn) \<and>
   handleData demo (Val (JStr (ustr ''clear''))) Undefined 0 drawn =
     Done (drawn\<lparr>canvas := [Fill (ustr ''white''), DrawLine Undefined Undefined Undefined Undefined,
                            Fill (ustr ''white'')],
                 pending := [SaveSnapshot [Fill (ustr ''white''),
                                           DrawLine Undefined Undefined Undefined Undefined]],
                 sent := [(0, Command (ustr ''clear'') Undefined),
                          (1, Command (ustr ''clear'') Undefined)]\<rparr>)"
proof -
  have h: "list_all (send_ok demo) (sockets drawn)"
    by (simp add: demo_def drawn_def)
  from C5_clear [where E = demo and st = drawn and data = Undefined and s = 0] h
  show ?thesis
    by (simp add: demo_def drawn_def start_def)
qed

section \<open>Events\<close>

lemmas event_defs = emitEvent_def on_def once_def EventClass_new_def createEvent_def
  events_has_def events_get_def events_push_def not_yet_created_def recorder_def ustr_def
  Let_def

lemma call_fn_plain:
  "fn l = Plain f \<Longrightarrow> call_fn ap l args (this, u) = with_this this (ap f args u)"
  by (cases "ap f args u") simp_all

lemma and_then_with_this:
  "and_then (with_this this r) (\<lambda>w. with_this this (g (snd w))) = with_this this (and_then r g)"
  by (cases r) simp_all

lemma forEach_plain:
  assumes "map fn (events_get this event) = map Plain fs"
  shows "k + n = length fs \<Longrightarrow>
         forEach ap event args n k (this, u) = with_this this (call_all ap (drop k fs) args u)"
proof (induction n arbitrary: k u)
  case 0
  then show ?case by simp
next
  case (Suc n)
  from assms have len: "length (events_get this event) = length fs"
    by (metis length_map)
  from Suc.prems have k: "k < length fs" by simp
  then have d: "drop k fs = fs ! k # drop (Suc k) fs"
    by (simp add: Cons_nth_drop_Suc)
  from assms k len have f: "fn (events_get this event ! k) = Plain (fs ! k)"
    by (metis nth_map)
  have step: "forEach ap event args n (Suc k) (this, u') =
                with_this this (call_all ap (drop (Suc k) fs) args u')" for u'
    using Suc.IH [of "Suc k" u'] Suc.prems by simp
  show ?case
  proof (cases "ap (fs ! k) args u")
    case (Done u')
    with k len f d step show ?thesis by (simp add: call_fn_plain)
  next
    case (Threw e u')
    with k len f d show ?thesis by (simp add: call_fn_plain)
  qed
qed

text \<open>
  When the listeners of the event were all registered with \<^verbatim>\<open>on\<close>, an emission calls them
  in the order of registration with the arguments of the emission, up to the first that
  throws, and leaves the registry as it is.
\<close>

lemma emitEvent_plain:
  assumes "events_has this event" and "map fn (events_get this event) = map Plain fs"
  shows "emitEvent ap event args (this, u) = with_this this (call_all ap fs args u)"
proof -
  from assms(2) have "length (events_get this event) = length fs"
    by (metis length_map)
  with assms(1) forEach_plain [OF assms(2), of 0 "length fs" ap args u]
  show ?thesis
    by (simp add: emitEvent_def not_yet_created_def)
qed

text \<open>
  C3: an emission calls every listener that is registered when it starts, in the order of
  registration, none being passed over. The code does not do this when a one-shot listener
  is followed by another listener. After \<^verbatim>\<open>once("meow", A)\<close> and \<^verbatim>\<open>on("meow", B)\<close>, the
  emission \<^verbatim>\<open>emitEvent("meow", 1, 2)\<close> calls \<open>A\<close> with the two arguments; the wrapper of
  \<open>A\<close> then takes itself out of the array, \<open>B\<close> moves to index 0, \<^verbatim>\<open>forEach\<close> goes on to
  index 1, which is no longer there, and the emission ends without a call to \<open>B\<close> (which
  stays registered).
\<close>

theorem C3_emit_skips_listener_after_oneshot:
  "snd (state_of (emitEvent recorder (ustr ''meow'') [1::nat, 2] (once_then_on, []))) =
     [(''A'', [1, 2])] \<and>
   \<not> threw (emitEvent recorder (ustr ''meow'') [1::nat, 2] (once_then_on, [])) \<and>
   map fn (events_get (fst (state_of
       (emitEvent recorder (ustr ''meow'') [1::nat, 2] (once_then_on, [])))) (ustr ''meow'')) =
     [Plain ''B'']"
  by (simp add: event_defs once_then_on_def)

text \<open>
  C6: a one-shot listener is called on the first of two emissions and on that one only.
  The code does not do this for a one-shot listener that follows another one. With four
  one-shot listeners \<open>A\<close>, \<open>B\<close>, \<open>C\<close>, \<open>D\<close> registered in this order, the first emission calls
  \<open>A\<close> and \<open>C\<close>, the second calls \<open>B\<close>: \<open>B\<close> is not called on the first emission, and \<open>D\<close> is
  not called at all in the two emissions and is still registered after them.
\<close>

theorem C6_oneshot_not_called_on_first_emission:
  "snd (state_of (emitEvent recorder (ustr ''meow'') ([]::nat list) (four_once, []))) =
     [(''A'', []), (''C'', [])] \<and>
   snd (state_of (and_then (emitEvent recorder (ustr ''meow'') ([]::nat list) (four_once, []))
                    (emitEvent recorder (ustr ''meow'') []))) =
     [(''A'', []), (''C'', []), (''B'', [])] \<and>
   map fn (events_get (fst (state_of
       (and_then (emitEvent recorder (ustr ''meow'') ([]::nat list) (four_once, []))
          (emitEvent recorder (ustr ''meow'') [])))) (ustr ''meow'')) =
     [OnceWrapper ''D'' (ustr ''meow'')]"
  by (simp add: event_defs four_once_def)

section \<open>Inbound frames\<close>

text \<open>
  On the server a frame without \<^verbatim>\<open>command\<close> is dispatched to \<^verbatim>\<open>handleData\<close>, whose
  \<^verbatim>\<open>switch\<close> matches no label for \<^verbatim>\<open>undefined\<close>: nothing is thrown and nothing changes.
\<close>

lemma connected_socket:
  "connection E ws st = Done (socket, st') \<Longrightarrow>
     events_has socket (ustr ''data'') \<and>
     map fn (events_get socket (ustr ''data'')) = map Plain [HandleData]"
  by (cases "Socket_write E ws (ustr ''hi'') Undefined st")
     (auto simp: connection_def Socket_new_def EventClass_new_def createEvent_def on_def
        events_has_def events_get_def events_push_def not_yet_created_def Let_def)

lemma frame_without_command_on_server:
  assumes "connection E ws st0 = Done (socket, st1)"
    and "JSON_parse frame = Some v"
    and "get_prop (Val v) (ustr ''command'') = Inr Undefined"
    and "get_prop (Val v) (ustr ''data'') = Inr d"
  shows "on_message (call_listener E) ws frame (socket, st) = Done (socket, st)"
proof -
  from connected_socket [OF assms(1)]
  have "emitEvent (call_listener E) (ustr ''data'') [AVal Undefined, AVal d, ASocket ws] (socket, st) =
          with_this socket
            (call_all (call_listener E) [HandleData] [AVal Undefined, AVal d, ASocket ws] st)"
    by (intro emitEvent_plain) simp_all
  also have "\<dots> = Done (socket, st)"
    by (simp add: handleData_def)
  finally show ?thesis
    using assms(2-4) by (simp add: on_message_def)
qed

text \<open>
  C7 as the spec states it: a frame that is not valid structured data, or that has no
  \<^verbatim>\<open>command\<close> field, makes the parse fail, and no \<^verbatim>\<open>data\<close> event is dispatched. As stated
  it fails for the second kind of frame: \<^verbatim>\<open>{"data":1}\<close> is parsed, nothing is thrown, and
  the listener of \<^verbatim>\<open>data\<close> is called with \<^verbatim>\<open>undefined\<close> as the command.
\<close>

theorem C7_frame_without_command_is_dispatched:
  \<open>JSON_parse (ustr ''{"data":1}'') = Some (JObj [(ustr ''data'', JNum 1 0)]) \<and>
   get_prop (Val (JObj [(ustr ''data'', JNum 1 0)])) (ustr ''command'') = Inr Undefined \<and>
   on_message recorder 7 (ustr ''{"data":1}'') (listening, []) =
     Done (listening, [(''handleData'', [AVal Undefined, AVal (Val (JNum 1 0)), ASocket 7])])\<close>
  by code_simp

text \<open>
  C7, amended: a frame that is not valid JSON makes \<^verbatim>\<open>JSON.parse\<close> throw; the exception
  reaches the caller and no \<^verbatim>\<open>data\<close> event is dispatched (the registry and the state of
  the listeners are as before). The same holds for the frame \<^verbatim>\<open>null\<close>, where reading
  \<^verbatim>\<open>.command\<close> throws. Every other frame is dispatched, with the values of its
  \<^verbatim>\<open>command\<close> and \<^verbatim>\<open>data\<close> members, \<^verbatim>\<open>undefined\<close> for a member it does not have.
\<close>

theorem C7_malformed_frame_throws:
  "(JSON_parse frame = None \<longrightarrow> on_message ap this frame w = Threw SyntaxError w) \<and>
   (JSON_parse frame = Some JNull \<longrightarrow> on_message ap this frame w = Threw TypeError w) \<and>
   (JSON_parse frame = Some v \<longrightarrow> get_prop (Val v) (ustr ''command'') = Inr c \<longrightarrow>
      get_prop (Val v) (ustr ''data'') = Inr d \<longrightarrow>
      on_message ap this frame w =
        emitEvent ap (ustr ''data'') [AVal c, AVal d, ASocket this] w)"
  by (simp add: on_message_def)

theorem C7_malformed_frame_throws_witness:
  \<open>JSON_parse (ustr ''{"command":'') = None \<and>
   on_message recorder 7 (ustr ''{"command":'') (listening, []) =
     Threw SyntaxError (listening, []) \<and>
   JSON_parse (ustr ''null'') = Some JNull \<and>
   on_message recorder 7 (ustr ''null'') (listening, []) = Threw TypeError (listening, []) \<and>
   JSON_parse (ustr ''{"command":"clear"}'') =
     Some (JObj [(ustr ''command'', JStr (ustr ''clear''))]) \<and>
   on_message recorder 7 (ustr ''{"command":"clear"}'') (listening, []) =
     emitEvent recorder (ustr ''data'')
       [AVal (Val (JStr (ustr ''clear''))), AVal Undefined, ASocket 7] (listening, [])\<close>
proof -
  have h1: \<open>JSON_parse (ustr ''{"command":'') = None\<close>
    by code_simp
  have h2: \<open>JSON_parse (ustr ''null'') = Some JNull\<close>
    by code_simp
  have h3: \<open>JSON_parse (ustr ''{"command":"clear"}'') =
              Some (JObj [(ustr ''command'', JStr (ustr ''clear''))])\<close>
    by code_simp
  have h4: "get_prop (Val (JObj [(ustr ''command'', JStr (ustr ''clear''))])) (ustr ''command'') =
              Inr (Val (JStr (ustr ''clear'')))"
    by (simp add: ustr_def)
  have h5: "get_prop (Val (JObj [(ustr ''command'', JStr (ustr ''clear''))])) (ustr ''data'') =
              Inr Undefined"
    by (simp add: ustr_def)
  from C7_malformed_frame_throws [where frame = \<open>ustr ''{"command":''\<close> and ap = recorder
      and this = 7 and w = "(listening, [])"] h1
  have a: \<open>on_message recorder 7 (ustr ''{"command":'') (listening, []) =
             Threw SyntaxError (listening, [])\<close>
    by blast
  from C7_malformed_frame_throws [where frame = "ustr ''null''" and ap = recorder
      and this = 7 and w = "(listening, [])"] h2
  have b: "on_message recorder 7 (ustr ''null'') (listening, []) = Threw TypeError (listening, [])"
    by blast
  from C7_malformed_frame_throws [where frame = \<open>ustr ''{"command":"clear"}''\<close>
      and ap = recorder and this = 7 and w = "(listening, [])"
      and v = "JObj [(ustr ''command'', JStr (ustr ''clear''))]"
      and c = "Val (JStr (ustr ''clear''))" and d = Undefined] h3 h4 h5
  have c: \<open>on_message recorder 7 (ustr ''{"command":"clear"}'') (listening, []) =
     emitEvent recorder (ustr ''data'')
       [AVal (Val (JStr (ustr ''clear''))), AVal Undefined, ASocket 7] (listening, [])\<close>
    by blast
  from h1 h2 h3 a b c show ?thesis by blast
qed

section \<open>Outbound frames read back\<close>

declare parse_value.simps [simp del] parse_elements.simps [simp del]
  parse_members.simps [simp del]

text \<open>
  From here on the equations of the parser are unfolded by hand.
\<close>

lemma hex_val_hex_digit_all: "\<forall>k\<in>set [0..<16]. hex_val (hex_digit k) = Some k"
  by code_simp

lemma hex_val_hex_digit: "k < 16 \<Longrightarrow> hex_val (hex_digit k) = Some k"
  using hex_val_hex_digit_all by simp

lemma nibbles:
  "((n div 4096 * 16 + n div 256 mod 16) * 16 + n div 16 mod 16) * 16 + n mod 16 = (n::nat)"
proof -
  have a: "n div 256 = n div 16 div 16" and b: "n div 4096 = n div 16 div 16 div 16"
    by (simp_all add: div_mult2_eq)
  have "m div 16 * 16 + m mod 16 = m" for m :: nat
    by simp
  then show ?thesis
    unfolding a b by simp
qed

lemma hex4_unicode:
  "hex4 (hex_digit (unat c div 4096)) (hex_digit (unat c div 256 mod 16))
        (hex_digit (unat c div 16 mod 16)) (hex_digit (unat c mod 16)) = Some (c::jschar)"
proof -
  have "unat c < 65536"
    using unsigned_less [of c, where 'a = nat] by simp
  then have "unat c div 4096 < 16" by simp
  then have "hex4 (hex_digit (unat c div 4096)) (hex_digit (unat c div 256 mod 16))
                  (hex_digit (unat c div 16 mod 16)) (hex_digit (unat c mod 16)) =
             Some (of_nat (((unat c div 4096 * 16 + unat c div 256 mod 16) * 16 +
                              unat c div 16 mod 16) * 16 + unat c mod 16))"
    by (simp add: hex4_def hex_val_hex_digit del: of_nat_add of_nat_mult)
  also have "\<dots> = Some (of_nat (unat c))"
    by (simp only: nibbles)
  also have "\<dots> = Some c"
    by simp
  finally show ?thesis .
qed

lemma parse_chars_unicode_escape:
  "parse_chars (unicode_escape c @ X) =
     map_option (\<lambda>(str, rest). (c # str, rest)) (parse_chars X)"
  by (simp add: unicode_escape_def hex4_unicode ch_def)


lemma surrogate_facts:
  "is_lead c \<or> is_trail c \<Longrightarrow>
   c \<noteq> 0x08 \<and> c \<noteq> 0x09 \<and> c \<noteq> 0x0A \<and> c \<noteq> 0x0C \<and> c \<noteq> 0x0D \<and> c \<noteq> 0x22 \<and> c \<noteq> 0x5C \<and>
   \<not> c < 0x20"
  by (auto simp: is_lead_def is_trail_def word_le_nat_alt word_less_nat_alt)

lemma trail_not_lead: "is_trail c \<Longrightarrow> \<not> is_lead c"
  by (auto simp: is_lead_def is_trail_def word_le_nat_alt)

lemma quote_chars_special:
  "quote_chars (0x08 # cs) = 0x5C # ch CHR ''b'' # quote_chars cs"
  "quote_chars (0x09 # cs) = 0x5C # ch CHR ''t'' # quote_chars cs"
  "quote_chars (0x0A # cs) = 0x5C # ch CHR ''n'' # quote_chars cs"
  "quote_chars (0x0C # cs) = 0x5C # ch CHR ''f'' # quote_chars cs"
  "quote_chars (0x0D # cs) = 0x5C # ch CHR ''r'' # quote_chars cs"
  "quote_chars (0x22 # cs) = 0x5C # 0x22 # quote_chars cs"
  "quote_chars (0x5C # cs) = 0x5C # 0x5C # quote_chars cs"
  by simp_all

lemma parse_chars_special:
  "parse_chars (0x5C # ch CHR ''b'' # X) = map_option (\<lambda>(str, rest). (0x08 # str, rest)) (parse_chars X)"
  "parse_chars (0x5C # ch CHR ''t'' # X) = map_option (\<lambda>(str, rest). (0x09 # str, rest)) (parse_chars X)"
  "parse_chars (0x5C # ch CHR ''n'' # X) = map_option (\<lambda>(str, rest). (0x0A # str, rest)) (parse_chars X)"
  "parse_chars (0x5C # ch CHR ''f'' # X) = map_option (\<lambda>(str, rest). (0x0C # str, rest)) (parse_chars X)"
  "parse_chars (0x5C # ch CHR ''r'' # X) = map_option (\<lambda>(str, rest). (0x0D # str, rest)) (parse_chars X)"
  "parse_chars (0x5C # 0x22 # X) = map_option (\<lambda>(str, rest). (0x22 # str, rest)) (parse_chars X)"
  "parse_chars (0x5C # 0x5C # X) = map_option (\<lambda>(str, rest). (0x5C # str, rest)) (parse_chars X)"
  by (simp_all add: ch_def escape_char_def)

lemma parse_chars_literal:
  "c \<noteq> 0x22 \<Longrightarrow> c \<noteq> 0x5C \<Longrightarrow> \<not> c < 0x20 \<Longrightarrow>
   parse_chars (c # X) = map_option (\<lambda>(str, rest). (c # str, rest)) (parse_chars X)"
  by simp

lemma quote_chars_escaped:
  assumes "c \<noteq> 0x08" "c \<noteq> 0x09" "c \<noteq> 0x0A" "c \<noteq> 0x0C" "c \<noteq> 0x0D" "c \<noteq> 0x22" "c \<noteq> 0x5C"
    and "c < 0x20 \<or> is_trail c \<or> (is_lead c \<and> (case cs of [] \<Rightarrow> True | d # ds \<Rightarrow> \<not> is_trail d))"
  shows "quote_chars (c # cs) = unicode_escape c @ quote_chars cs"
  using assms trail_not_lead [of c] surrogate_facts [of c]
  by (cases cs) auto

lemma quote_chars_pair:
  assumes "is_lead c" "is_trail d"
  shows "quote_chars (c # d # ds) = c # d # quote_chars ds"
  using assms surrogate_facts [of c] by simp

lemma quote_chars_literal:
  assumes "c \<noteq> 0x08" "c \<noteq> 0x09" "c \<noteq> 0x0A" "c \<noteq> 0x0C" "c \<noteq> 0x0D" "c \<noteq> 0x22" "c \<noteq> 0x5C"
    and "\<not> c < 0x20" "\<not> is_lead c" "\<not> is_trail c"
  shows "quote_chars (c # cs) = c # quote_chars cs"
  using assms by simp


lemma parse_chars_quote_step:
  "parse_chars (quote_chars (c # cs) @ X) =
     map_option (\<lambda>(str, rest). (c # str, rest)) (parse_chars (quote_chars cs @ X))"
proof -
  consider (special) "c = 0x08 \<or> c = 0x09 \<or> c = 0x0A \<or> c = 0x0C \<or> c = 0x0D \<or> c = 0x22 \<or> c = 0x5C"
    | (pair) d ds where "is_lead c" "cs = d # ds" "is_trail d"
    | (escaped) "c \<noteq> 0x08" "c \<noteq> 0x09" "c \<noteq> 0x0A" "c \<noteq> 0x0C" "c \<noteq> 0x0D" "c \<noteq> 0x22" "c \<noteq> 0x5C"
        "c < 0x20 \<or> is_trail c \<or> (is_lead c \<and> (case cs of [] \<Rightarrow> True | d # ds \<Rightarrow> \<not> is_trail d))"
    | (literal) "c \<noteq> 0x08" "c \<noteq> 0x09" "c \<noteq> 0x0A" "c \<noteq> 0x0C" "c \<noteq> 0x0D" "c \<noteq> 0x22" "c \<noteq> 0x5C"
        "\<not> c < 0x20" "\<not> is_lead c" "\<not> is_trail c"
    by (cases cs) auto
  then show ?thesis
  proof cases
    case special
    then show ?thesis
      by (elim disjE) (simp_all only: quote_chars_special parse_chars_special append_Cons)
  next
    case pair
    have "quote_chars (d # ds) = unicode_escape d @ quote_chars ds"
      using pair(3) surrogate_facts [of d] by (intro quote_chars_escaped) simp_all
    moreover have "quote_chars (c # d # ds) = c # d # quote_chars ds"
      using pair by (intro quote_chars_pair)
    ultimately show ?thesis
      using pair surrogate_facts [of c] surrogate_facts [of d]
      by (simp only: append_Cons append_assoc parse_chars_unicode_escape)
         (simp add: parse_chars_literal del: parse_chars.simps)
  next
    case escaped
    then have "quote_chars (c # cs) = unicode_escape c @ quote_chars cs"
      by (intro quote_chars_escaped)
    then show ?thesis
      by (simp only: append_assoc parse_chars_unicode_escape)
  next
    case literal
    then have "quote_chars (c # cs) = c # quote_chars cs"
      by (intro quote_chars_literal)
    with parse_chars_literal [of c "quote_chars cs @ X", OF literal(6) literal(7) literal(8)]
    show ?thesis
      by (simp only: append_Cons)
  qed
qed

text \<open>A quoted string is read back as the string.\<close>

lemma parse_chars_quote_chars:
  "parse_chars (quote_chars s @ 0x22 # rest) = Some (s, rest)"
proof (induction s)
  case Nil
  show ?case by simp
next
  case (Cons c cs)
  show ?case
    by (simp only: parse_chars_quote_step Cons) simp
qed

lemma parse_value_QuoteJSONString:
  "parse_value (QuoteJSONString s @ rest) = Some (JStr s, rest)"
  by (simp add: QuoteJSONString_def parse_value.simps parse_chars_quote_chars ch_def
        del: parse_chars.simps)


lemma parse_number_first:
  assumes "parse_number (c # cs) = Some (v, r)"
  shows "c = ch CHR ''-'' \<or> is_digit c"
proof (rule ccontr)
  assume n: "\<not> (c = ch CHR ''-'' \<or> is_digit c)"
  then have "takeWhile is_digit (c # cs) = []" by simp
  with n have "parse_int_part (c # cs) = None"
    by (auto simp: parse_int_part_def parse_digits_def is_digit_def)
  with n assms show False
    by (simp add: parse_number_def)
qed

lemma parse_value_JNum_first:
  assumes "parse_value s = Some (JNum m e, r)"
  shows "\<exists>c cs. s = c # cs \<and> (c = ch CHR ''-'' \<or> is_digit c)"
proof (cases s)
  case Nil
  with assms show ?thesis by (simp add: parse_value.simps)
next
  case (Cons c cs)
  have "parse_number (c # cs) = Some (JNum m e, r)"
    using assms unfolding Cons
    by (subst (asm) parse_value.simps)
       (auto simp: parse_literal_def split: if_splits list.splits)
  from parse_number_first [OF this] Cons show ?thesis by simp
qed

lemma reads_back_starts: 
  assumes "reads_back N m e"
  shows "starts_value (N m e)"
proof -
  from assms have "parse_value (N m e @ ch CHR '','' # []) = Some (JNum m e, ch CHR '','' # [])"
    by (simp add: reads_back_def)
  from parse_value_JNum_first [OF this] obtain c cs
    where s: "N m e @ [ch CHR '',''] = c # cs" and c: "c = ch CHR ''-'' \<or> is_digit c"
    by blast
  show ?thesis
  proof (cases "N m e")
    case Nil
    with s c show ?thesis by (auto simp: ch_def is_digit_def)
  next
    case (Cons a as)
    with s c show ?thesis
      by (auto simp: starts_value_def ch_def is_digit_def is_ws_def)
  qed
qed

lemma simple_payload_starts: "simple_payload N v \<Longrightarrow> starts_value (JSON_stringify N v)"
  by (cases v)
     (auto dest!: reads_back_starts simp: starts_value_def QuoteJSONString_def ch_def is_ws_def)

lemma starts_value_append: "starts_value s \<Longrightarrow> starts_value (s @ t)"
  by (cases s) (simp_all add: starts_value_def)

lemma starts_value_skip_ws: "starts_value s \<Longrightarrow> skip_ws s = s"
  by (cases s) (simp_all add: starts_value_def skip_ws_def)


lemma delimiter: "d \<in> {ch CHR '','', ch CHR '']'', ch CHR ''}''} \<Longrightarrow> skip_ws (d # rs) = d # rs"
  by (auto simp: skip_ws_def is_ws_def ch_def)

lemma parse_elements_join:
  assumes "\<And>v d rs. v \<in> set vs \<Longrightarrow> d \<in> {ch CHR '','', ch CHR '']'', ch CHR ''}''} \<Longrightarrow>
             parse_value (JSON_stringify N v @ d # rs) = Some (v, d # rs)"
    and "\<And>v. v \<in> set vs \<Longrightarrow> starts_value (JSON_stringify N v)"
    and "vs \<noteq> []"
  shows "parse_elements (join_commas (map (JSON_stringify N) vs) @ ch CHR '']'' # rest) =
           Some (vs, rest)"
  using assms
proof (induction vs rule: induct_list012)
  case 1
  then show ?case by simp
next
  case (2 v)
  have p: "parse_value (JSON_stringify N v @ ch CHR '']'' # rest) = Some (v, ch CHR '']'' # rest)"
    using 2(1) by simp
  have n: "JSON_stringify N v \<noteq> []"
    using 2(2) [of v] by (auto simp: starts_value_def)
  show ?case
    using p n
    by (subst parse_elements.simps)
       (simp add: delimiter ch_def)
next
  case (3 v w ws)
  let ?R = "join_commas (map (JSON_stringify N) (w # ws)) @ ch CHR '']'' # rest"
  have p: "parse_value (JSON_stringify N v @ ch CHR '','' # ?R) = Some (v, ch CHR '','' # ?R)"
    using 3(3) by simp
  have n: "JSON_stringify N v \<noteq> []"
    using 3(4) [of v] by (auto simp: starts_value_def)
  have "starts_value (join_commas (map (JSON_stringify N) (w # ws)))"
    using 3(4) [of w] by (cases ws) (simp_all add: starts_value_append)
  then have sk: "skip_ws ?R = ?R"
    by (intro starts_value_skip_ws starts_value_append)
  have ih: "parse_elements ?R = Some (w # ws, rest)"
    using 3(2) 3(3) 3(4) by simp
  have "parse_elements (JSON_stringify N v @ ch CHR '','' # ?R) = Some (v # w # ws, rest)"
    using p n sk ih
    by (subst parse_elements.simps)
       (simp add: delimiter)
  then show ?case by simp
qed


lemma parse_value_array:
  assumes "\<And>v d rs. v \<in> set vs \<Longrightarrow> d \<in> {ch CHR '','', ch CHR '']'', ch CHR ''}''} \<Longrightarrow>
             parse_value (JSON_stringify N v @ d # rs) = Some (v, d # rs)"
    and "\<And>v. v \<in> set vs \<Longrightarrow> starts_value (JSON_stringify N v)"
  shows "parse_value (JSON_stringify N (JArr vs) @ rest) = Some (JArr vs, rest)"
proof (cases vs)
  case Nil
  then show ?thesis
    by (simp add: parse_value.simps ch_def skip_ws_def is_ws_def)
next
  case (Cons v ws)
  let ?E = "join_commas (map (JSON_stringify N) vs) @ ch CHR '']'' # rest"
  have "starts_value (join_commas (map (JSON_stringify N) vs))"
    using assms(2) [of v] Cons by (cases ws) (simp_all add: starts_value_append)
  then have st: "starts_value ?E"
    by (rule starts_value_append)
  then obtain c cs where E: "?E = c # cs" and c: "c \<noteq> ch CHR '']''"
    by (cases ?E) (auto simp: starts_value_def)
  have sk: "skip_ws ?E = ?E"
    using st by (rule starts_value_skip_ws)
  have el: "parse_elements ?E = Some (vs, rest)"
    using assms Cons by (intro parse_elements_join) simp_all
  have "parse_value (ch CHR ''['' # ?E) = Some (JArr vs, rest)"
    using sk el E c
    by (subst parse_value.simps)
       (simp add: ch_def)
  then show ?thesis by simp
qed

text \<open>The text of a payload, in front of a delimiter, is read back as the payload.\<close>

lemma parse_value_JSON_stringify:
  "simple_payload N v \<Longrightarrow> d \<in> {ch CHR '','', ch CHR '']'', ch CHR ''}''} \<Longrightarrow>
   parse_value (JSON_stringify N v @ d # rs) = Some (v, d # rs)"
proof (induction v arbitrary: d rs)
  case (JNum m e)
  then show ?case by (auto simp: reads_back_def)
next
  case (JStr s)
  show ?case
    by (simp only: JSON_stringify.simps parse_value_QuoteJSONString)
next
  case (JArr vs)
  have "parse_value (JSON_stringify N v @ d # rs) = Some (v, d # rs)"
    if "v \<in> set vs" "d \<in> {ch CHR '','', ch CHR '']'', ch CHR ''}''}" for v d rs
    using JArr.IH [OF that(1) _ that(2)] JArr.prems(1) that(1) by (simp add: list_all_iff)
  moreover have "starts_value (JSON_stringify N v)" if "v \<in> set vs" for v
    using JArr.prems(1) that by (intro simple_payload_starts) (simp add: list_all_iff)
  ultimately show ?case
    by (rule parse_value_array)
qed simp_all


lemma starts_value_QuoteJSONString: "starts_value (QuoteJSONString k @ X)"
  by (simp add: QuoteJSONString_def starts_value_def is_ws_def ch_def)

lemma starts_value_QuoteJSONString0: "starts_value (QuoteJSONString k)"
  by (simp add: QuoteJSONString_def starts_value_def is_ws_def ch_def)

lemma brace_not_comma: "ch CHR ''}'' \<noteq> ch CHR '',''"
  by (simp add: ch_def)

lemma skip_ws_colon: "skip_ws (ch CHR '':'' # X) = ch CHR '':'' # X"
  by (simp add: skip_ws_def is_ws_def ch_def)

lemma parse_members_last:
  assumes "parse_value (V @ ch CHR ''}'' # rest) = Some (v, ch CHR ''}'' # rest)"
    and "starts_value V"
  shows "parse_members (QuoteJSONString k @ ch CHR '':'' # V @ ch CHR ''}'' # rest) =
           Some ([(k, v)], rest)"
proof -
  have sk: "skip_ws (V @ ch CHR ''}'' # rest) = V @ ch CHR ''}'' # rest"
    using assms(2) by (intro starts_value_skip_ws starts_value_append)
  have "parse_members (0x22 # quote_chars k @ 0x22 # ch CHR '':'' # V @ ch CHR ''}'' # rest) =
          Some ([(k, v)], rest)"
    using assms(1) sk
    by (subst parse_members.simps)
       (simp add: parse_chars_quote_chars skip_ws_colon delimiter brace_not_comma
          del: parse_chars.simps)
  then show ?thesis
    by (simp add: QuoteJSONString_def)
qed

lemma parse_members_more:
  assumes "parse_value (V @ ch CHR '','' # R) = Some (v, ch CHR '','' # R)"
    and "starts_value V" and "starts_value R"
    and "parse_members R = Some (kvs, rest)"
  shows "parse_members (QuoteJSONString k @ ch CHR '':'' # V @ ch CHR '','' # R) =
           Some ((k, v) # kvs, rest)"
proof -
  have sk: "skip_ws (V @ ch CHR '','' # R) = V @ ch CHR '','' # R"
    using assms(2) by (intro starts_value_skip_ws starts_value_append)
  have skR: "skip_ws R = R"
    using assms(3) by (rule starts_value_skip_ws)
  have "parse_members (0x22 # quote_chars k @ 0x22 # ch CHR '':'' # V @ ch CHR '','' # R) =
          Some ((k, v) # kvs, rest)"
    using assms(1,4) sk skR
    by (subst parse_members.simps)
       (simp add: parse_chars_quote_chars skip_ws_colon delimiter del: parse_chars.simps)
  then show ?thesis
    by (simp add: QuoteJSONString_def)
qed

lemma parse_value_object:
  assumes "parse_members M = Some (kvs, rest)" and "M = 0x22 # M'"
  shows "parse_value (ch CHR ''{'' # M) = Some (JObj kvs, rest)"
  using assms
  by (subst parse_value.simps) (simp add: skip_ws_def is_ws_def ch_def)

lemma JSON_parse_wire_text:
  assumes "simple_payload N p"
  shows "JSON_parse (wire_text N c (Val p)) =
           Some (JObj [(ustr ''command'', JStr c), (ustr ''data'', p)])"
proof -
  let ?D = "QuoteJSONString (ustr ''data'') @ ch CHR '':'' # JSON_stringify N p @ ch CHR ''}'' # []"
  let ?M = "QuoteJSONString (ustr ''command'') @ ch CHR '':'' # QuoteJSONString c @ ch CHR '','' # ?D"
  have d: "parse_members ?D = Some ([(ustr ''data'', p)], [])"
    using assms
    by (intro parse_members_last parse_value_JSON_stringify simple_payload_starts) simp_all
  have m: "parse_members ?M = Some ([(ustr ''command'', JStr c), (ustr ''data'', p)], [])"
    by (rule parse_members_more [OF parse_value_QuoteJSONString starts_value_QuoteJSONString0
          starts_value_QuoteJSONString d])
  have "parse_value (ch CHR ''{'' # ?M) =
          Some (JObj [(ustr ''command'', JStr c), (ustr ''data'', p)], [])"
    by (rule parse_value_object [OF m]) (simp add: QuoteJSONString_def)
  moreover have "wire_text N c (Val p) = ch CHR ''{'' # ?M"
    by (simp add: wire_text_def)
  ultimately show ?thesis
    by (simp add: JSON_parse_def skip_ws_def is_ws_def ch_def)
qed

lemma JSON_parse_wire_text_no_data:
  "JSON_parse (wire_text N c Undefined) = Some (JObj [(ustr ''command'', JStr c)])"
proof -
  let ?M = "QuoteJSONString (ustr ''command'') @ ch CHR '':'' # QuoteJSONString c @ ch CHR ''}'' # []"
  have m: "parse_members ?M = Some ([(ustr ''command'', JStr c)], [])"
    by (rule parse_members_last [OF parse_value_QuoteJSONString starts_value_QuoteJSONString0])
  have "parse_value (ch CHR ''{'' # ?M) = Some (JObj [(ustr ''command'', JStr c)], [])"
    by (rule parse_value_object [OF m]) (simp add: QuoteJSONString_def)
  moreover have "wire_text N c Undefined = ch CHR ''{'' # ?M"
    by (simp add: wire_text_def)
  ultimately show ?thesis
    by (simp add: JSON_parse_def skip_ws_def is_ws_def ch_def)
qed

text \<open>
  C9, amended: for every command string and every payload built from nested arrays, strings
  and numbers whose text is read back as the same number, the text that \<^verbatim>\<open>write\<close> sends
  for \<^verbatim>\<open>{command, payload}\<close> is parsed by the inbound listener into the same command and the
  same payload, with which the \<^verbatim>\<open>data\<close> event is dispatched.
\<close>

theorem C9_round_trip:
  assumes "simple_payload N p"
  shows "on_message ap this (wire_text N c (Val p)) w =
           emitEvent ap (ustr ''data'') [AVal (Val (JStr c)), AVal (Val p), ASocket this] w"
  by (simp add: on_message_def JSON_parse_wire_text [OF assms] ustr_def)


lemma reads_back_1920: "reads_back integer_text 1920 0"
  by (auto simp: reads_back_def integer_text_def ch_def parse_value.simps parse_number_def
        parse_int_part_def parse_frac_def parse_exp_def parse_digits_def is_digit_def
        digits_val_def digit_val_def)

lemma reads_back_minus_5: "reads_back integer_text (- 5) 0"
  by (auto simp: reads_back_def integer_text_def ch_def parse_value.simps parse_number_def
        parse_int_part_def parse_frac_def parse_exp_def parse_digits_def is_digit_def
        digits_val_def digit_val_def)

theorem C9_round_trip_witness:
  \<open>simple_payload integer_text a_payload \<and>
   wire_text integer_text (ustr ''line'') (Val a_payload) =
     ustr ''{"command":"line","data":[1920,"red",[-5]]}'' \<and>
   on_message recorder 7 (wire_text integer_text (ustr ''line'') (Val a_payload)) (listening, []) =
     Done (listening,
           [(''handleData'', [AVal (Val (JStr (ustr ''line''))), AVal (Val a_payload), ASocket 7])])\<close>
proof -
  have h: "simple_payload integer_text a_payload"
    by (simp add: a_payload_def reads_back_1920 reads_back_minus_5)
  have t: \<open>wire_text integer_text (ustr ''line'') (Val a_payload) =
             ustr ''{"command":"line","data":[1920,"red",[-5]]}''\<close>
    by code_simp
  have e: "emitEvent recorder (ustr ''data'')
             [AVal (Val (JStr (ustr ''line''))), AVal (Val a_payload), ASocket 7] (listening, []) =
           Done (listening,
             [(''handleData'', [AVal (Val (JStr (ustr ''line''))), AVal (Val a_payload), ASocket 7])])"
    by (simp add: event_defs listening_def Socket_new_def)
  from C9_round_trip [OF h, of recorder 7 "ustr ''line''" "(listening, [])"] h t e
  show ?thesis by simp
qed

text \<open>
  C9 as the spec states it: every payload built from nested arrays, numbers and strings
  comes back unchanged. As stated it fails for a number that is not finite:
  \<^verbatim>\<open>JSON.stringify\<close> writes \<^verbatim>\<open>Infinity\<close> as \<^verbatim>\<open>null\<close>, so the payload
  \<^verbatim>\<open>[Infinity, 5]\<close> is sent as \<^verbatim>\<open>[null,5]\<close> and the listener receives \<^verbatim>\<open>[null, 5]\<close>.
\<close>

theorem C9_nonfinite_number_comes_back_null:
  \<open>wire_text integer_text (ustr ''dot'') (Val (JArr [JNonFinite PosInfinity, JNum 5 0])) =
     ustr ''{"command":"dot","data":[null,5]}'' \<and>
   on_message recorder 7
       (wire_text integer_text (ustr ''dot'') (Val (JArr [JNonFinite PosInfinity, JNum 5 0])))
       (listening, []) =
     Done (listening,
           [(''handleData'', [AVal (Val (JStr (ustr ''dot''))), AVal (Val (JArr [JNull, JNum 5 0])),
                              ASocket 7])])\<close>
  by code_simp

end
